theory Spec2Isabelle
  imports Main "HOL-Library.List_Lexorder" "HOL-Library.Char_ord"
begin

section \<open>String operations of the sources\<close>

text \<open>
  The sources work on Qt strings. A string is modelled as the list of its code units;
  the functions below are the Qt operations that the modelled parts of
  \<^verbatim>\<open>git.cpp\<close> call, with Qt's conventions: searches run from left to right over
  non-overlapping occurrences, and a negative section index counts from the right.
  An empty search text never matches (the sources never pass one).
\<close>

fun startsWith :: "string \<Rightarrow> string \<Rightarrow> bool" where
  "startsWith s [] = True"
| "startsWith [] (p # ps) = False"
| "startsWith (c # cs) (p # ps) = (c = p \<and> startsWith cs ps)"

fun contains_str :: "string \<Rightarrow> string \<Rightarrow> bool" where
  "contains_str [] sub = (sub = [])"
| "contains_str (c # cs) sub = (startsWith (c # cs) sub \<or> contains_str cs sub)"

text \<open>\<^verbatim>\<open>QString::replace(before, after)\<close>: every occurrence, found in the original text.\<close>

fun replaceFrom :: "nat \<Rightarrow> string \<Rightarrow> string \<Rightarrow> string \<Rightarrow> string" where
  "replaceFrom skip old new [] = []"
| "replaceFrom skip old new (c # cs) =
     (if 0 < skip then replaceFrom (skip - 1) old new cs
      else if old \<noteq> [] \<and> startsWith (c # cs) old
        then new @ replaceFrom (length old - 1) old new cs
      else c # replaceFrom 0 old new cs)"

definition replace_str :: "string \<Rightarrow> string \<Rightarrow> string \<Rightarrow> string" where
  "replace_str old new s = replaceFrom 0 old new s"

text \<open>\<^verbatim>\<open>QString::split(sep)\<close>, empty parts kept.\<close>

fun splitFrom :: "nat \<Rightarrow> string \<Rightarrow> string \<Rightarrow> string \<Rightarrow> string list" where
  "splitFrom skip sep cur [] = [cur]"
| "splitFrom skip sep cur (c # cs) =
     (if 0 < skip then splitFrom (skip - 1) sep cur cs
      else if sep \<noteq> [] \<and> startsWith (c # cs) sep
        then cur # splitFrom (length sep - 1) sep [] cs
      else splitFrom 0 sep (cur @ [c]) cs)"

definition split_str :: "string \<Rightarrow> string \<Rightarrow> string list" where
  "split_str sep s = splitFrom 0 sep [] s"

fun join_str :: "string \<Rightarrow> string list \<Rightarrow> string" where
  "join_str sep [] = []"
| "join_str sep [x] = x"
| "join_str sep (x # y # ys) = x @ sep @ join_str sep (y # ys)"

text \<open>
  \<^verbatim>\<open>QString::section(sep, start, end)\<close> with the default flags: the fields
  \<open>start .. end\<close> of the split text, joined by the separator again.
\<close>

definition section_str :: "string \<Rightarrow> int \<Rightarrow> int \<Rightarrow> string \<Rightarrow> string" where
  "section_str sep start stop s =
     (let fields = split_str sep s;
          n = int (length fields);
          st = (if start < 0 then start + n else start);
          en = (if stop < 0 then stop + n else stop)
      in if n \<le> st \<or> en < 0 \<or> en < st then []
         else join_str sep
                (take (nat (min en (n - 1)) + 1 - nat (max st 0)) (drop (nat (max st 0)) fields)))"

text \<open>\<^verbatim>\<open>QChar::isSpace\<close> on the code units below 256, and \<^verbatim>\<open>QString::trimmed\<close>.\<close>

definition isSpace :: "char \<Rightarrow> bool" where
  "isSpace c = (let n = (of_char c :: nat) in (9 \<le> n \<and> n \<le> 13) \<or> n = 32 \<or> n = 133 \<or> n = 160)"

definition trimmed :: "string \<Rightarrow> string" where
  "trimmed s = rev (dropWhile isSpace (rev (dropWhile isSpace s)))"

text \<open>\<^verbatim>\<open>QString::lastIndexOf(ch)\<close>: the last position of the character, or -1.\<close>

fun lastIndexOf :: "char \<Rightarrow> string \<Rightarrow> int" where
  "lastIndexOf ch [] = -1"
| "lastIndexOf ch (c # cs) =
     (let r = lastIndexOf ch cs in if 0 \<le> r then r + 1 else if c = ch then 0 else -1)"

text \<open>\<^verbatim>\<open>QStringList::indexOf(x) == -1\<close> is list membership; the decimal form of a number.\<close>

function showNat :: "nat \<Rightarrow> string" where
  "showNat n = (if n < 10 then [char_of (48 + n)] else showNat (n div 10) @ [char_of (48 + n mod 10)])"
  by pat_completeness auto
termination
  by (relation "measure id") auto

definition showInt :: "int \<Rightarrow> string" where
  "showInt i = (if i < 0 then CHR ''-'' # showNat (nat (- i)) else showNat (nat i))"

text \<open>\<^verbatim>\<open>QString("%1 ").arg(n, 6)\<close>: the number right-aligned in a field of six.\<close>

definition arg6 :: "int \<Rightarrow> string" where
  "arg6 n = replicate (6 - length (showInt n)) CHR '' '' @ showInt n @ '' ''"

section \<open>Data model\<close>

text \<open>
  Modelled from the spec: \<^verbatim>\<open>Rev\<close>, \<^verbatim>\<open>RevFile\<close>, \<^verbatim>\<open>Reference\<close> and the
  enumerations of status flags and reference types are declared in headers that are
  not among the sources. The records follow the spec's RevisionRecord, FileChangeSet
  and ReferenceEntry and hold the members that \<^verbatim>\<open>git.cpp\<close> reads, under their names
  there. A \<^verbatim>\<open>RevFile\<close> has one (directory index, name index) pair per changed file
  (\<^verbatim>\<open>dirAt\<close>, \<^verbatim>\<open>nameAt\<close>, \<^verbatim>\<open>count\<close>), its status and its extended status (the
  rename or copy arrow). The bit mask \<^verbatim>\<open>type\<close> of a \<^verbatim>\<open>Reference\<close> is the list of
  the reference types whose bit is set.
\<close>

record Rev =
  sha :: string
  parents :: "string list"
  orderIdx :: int
  childs :: "int list"
  descBrnMaster :: int
  descRefsMaster :: int
  ancRefsMaster :: int
  descBranches :: "int list"
  descRefs :: "int list"
  ancRefs :: "int list"
  shortLog :: string
  longLog :: string

datatype StatusFlag = MODIFIED | DELETED | NEW | RENAMED | COPIED | UNKNOWN | IN_INDEX | ANY

record RevFile =
  paths :: "(int \<times> int) list"
  status :: "StatusFlag list"
  extStatus :: "string list"
  onlyModified :: bool

datatype RefType = TAG | BRANCH | RMT_BRANCH | CUR_BRANCH | REF | APPLIED | UN_APPLIED | ANY_REF

record Reference =
  tags :: "string list"
  branches :: "string list"
  remoteBranches :: "string list"
  refs :: "string list"
  stgitPatch :: string
  type :: "RefType list"
  tagObj :: string
  tagMsg :: string

text \<open>
  One launch of the external tool, as \<^verbatim>\<open>Git::run\<close> hands it to the process
  runner: the command, the working directory, whether a failure is reported to the
  user (\<^verbatim>\<open>errorReportingEnabled\<close> at that moment), and how it ended.
\<close>

record Invocation =
  command :: string
  directory :: string
  reporting :: bool
  succeeded :: bool

text \<open>
  The members of \<^verbatim>\<open>Git\<close> that the modelled functions read or write. The
  reference map is kept as the list of its entries in enumeration order, since
  \<^verbatim>\<open>getRefSha\<close> walks it. \<open>invocations\<close> records every launch of the tool and
  \<open>fileSystem\<close> the files written by \<^verbatim>\<open>writeToFile\<close>; \<open>posted\<close> holds the events
  posted to the parent object.
\<close>

record Git =
  revs :: "string \<rightharpoonup> Rev"
  revOrder :: "string list"
  refsShaMap :: "(string \<times> Reference) list"
  revsFiles :: "string \<rightharpoonup> RevFile"
  dirNamesVec :: "string list"
  fileNamesVec :: "string list"
  errorReportingEnabled :: bool
  cacheNeedsUpdate :: bool
  workDir :: string
  gitDir :: string
  isTextHighlighterFound :: bool
  textHighlighterVersionFound :: string
  posted :: "(string \<times> string) list"
  invocations :: "Invocation list"
  fileSystem :: "string \<rightharpoonup> string"
  isGIT :: bool
  isStGIT :: bool

text \<open>
  What the sources use and do not define: the external tool itself, constants and
  helpers of headers and source files that are not present, the user's settings and
  the event loop. They are parameters of the model.
  \<^item> \<open>tool\<close>: how the external tool answers a command, given the launches so far and
    the working directory: success and captured output.
  \<^item> \<open>nullSha\<close>: whether an identifier converts to a \<^verbatim>\<open>ShaString\<close> with a null
    \<^verbatim>\<open>latin1()\<close> pointer.
  \<^item> \<open>parseDiffFormat\<close>: \<^verbatim>\<open>parseDiffFormat\<close> followed by \<^verbatim>\<open>flushFileNames\<close>, from
    the diff text and the name tables to the \<^verbatim>\<open>RevFile\<close> and the grown tables.
  \<^item> \<open>statusCmp\<close>, \<open>filePath\<close>: \<^verbatim>\<open>RevFile::statusCmp\<close> and \<^verbatim>\<open>Git::filePath\<close>.
  \<^item> \<open>processEvents\<close>: the macro \<^verbatim>\<open>EM_PROCESS_EVENTS\<close>: the state after the pending
    events ran, and the exception it throws, if any.
  \<^item> \<open>canWrite\<close>: whether \<^verbatim>\<open>writeToFile\<close> can write a path.
  \<^item> \<open>processEventsNoInput\<close>: the macro \<^verbatim>\<open>EM_PROCESS_EVENTS_NO_INPUT\<close>, as
    \<open>processEvents\<close>.
  \<^item> \<open>populateRenamedPatches\<close>: \<^verbatim>\<open>Git::populateRenamedPatches\<close> called with a
    revision and the current file names, without a file history and backtracking:
    whether it succeeded, the older names, and the state it leaves.
  \<^item> \<open>removePgp\<close>: \<^verbatim>\<open>QString::remove\<close> with the pattern of a PGP signature.
  \<^item> \<open>sortTree\<close>: \<^verbatim>\<open>qSort\<close> on tree entries, by the order of \<^verbatim>\<open>TreeEntry\<close>.
  \<^item> \<open>amPOpt\<close>, \<open>fmtPOpt\<close>, \<open>signPatch\<close>, \<open>numbers\<close>: the settings under
    \<^verbatim>\<open>AM_P_OPT_KEY\<close> and \<^verbatim>\<open>FMT_P_OPT_KEY\<close>, and the flags \<^verbatim>\<open>SIGN_PATCH_F\<close> and
    \<^verbatim>\<open>NUMBERS_F\<close>.
\<close>

record Env =
  tool :: "Invocation list \<Rightarrow> string \<Rightarrow> string \<Rightarrow> bool \<times> string"
  nullSha :: "string \<Rightarrow> bool"
  ZERO_SHA :: string
  CUSTOM_SHA :: string
  ALL_MERGE_FILES :: string
  QUOTE_CHAR :: string
  GIT_VERSION :: string
  parseDiffFormat :: "string \<Rightarrow> string list \<times> string list \<Rightarrow> RevFile \<times> string list \<times> string list"
  statusCmp :: "RevFile \<Rightarrow> int \<Rightarrow> StatusFlag \<Rightarrow> bool"
  filePath :: "string list \<Rightarrow> string list \<Rightarrow> RevFile \<Rightarrow> int \<Rightarrow> string"
  processEvents :: "Git \<Rightarrow> int option \<times> Git"
  canWrite :: "(string \<rightharpoonup> string) \<Rightarrow> string \<Rightarrow> bool"
  cmtArgs :: string
  signCmt :: bool
  verifyCmt :: bool
  optOnlyInIndex :: bool
  systemEnvironment :: "string list"
  processEventsNoInput :: "Git \<Rightarrow> int option \<times> Git"
  populateRenamedPatches :: "string \<Rightarrow> string list \<Rightarrow> Git \<Rightarrow> (bool \<times> string list) \<times> Git"
  removePgp :: "string \<Rightarrow> string"
  sortTree :: "(string \<times> string \<times> string) list \<Rightarrow> (string \<times> string \<times> string) list"
  amPOpt :: string
  fmtPOpt :: string
  signPatch :: bool
  numbers :: bool
  SCRIPT_EXT :: string

text \<open>
  How a call of a modelled function ends: it returns a value and leaves a state, an
  exception of the exception manager leaves it, or it dereferences a null pointer or
  reads a vector out of range.
\<close>

datatype 'a outcome = Ret 'a Git | Thrown int Git | Crash

section \<open>Running the external tool\<close>

text \<open>
  Modelled from the spec: \<^verbatim>\<open>MyProcess::runSync\<close> is not among the sources. Its
  contract is \<open>runSync(command, capturesOutput) -> (success, output-bytes)\<close>, one
  launch per call; a failure is reported to the user when error reporting is enabled
  and is silent otherwise. \<^verbatim>\<open>Git::run\<close> builds the process with \<^verbatim>\<open>workDir\<close> and
  \<^verbatim>\<open>errorReportingEnabled\<close> and returns what \<^verbatim>\<open>runSync\<close> returns.
\<close>

definition run :: "Env \<Rightarrow> string \<Rightarrow> Git \<Rightarrow> (bool \<times> string) \<times> Git" where
  "run E runCmd g =
     (let r = tool E (invocations g) (workDir g) runCmd
      in (r, g\<lparr>invocations := invocations g @
                 [\<lparr>command = runCmd, directory = workDir g,
                   reporting = errorReportingEnabled g, succeeded = fst r\<rparr>]\<rparr>))"

text \<open>A failure that reaches the user: the tool failed while reporting was enabled.\<close>

definition surfaced :: "Invocation \<Rightarrow> bool" where
  "surfaced i = (reporting i \<and> \<not> succeeded i)"

definition runDiffTreeWithRenameDetection :: "Env \<Rightarrow> string \<Rightarrow> Git \<Rightarrow> (bool \<times> string) \<times> Git" where
  "runDiffTreeWithRenameDetection E runCmd g =
     (let cmd = replace_str ''git diff-tree'' ''git diff-tree -C'' runCmd;
          g1 = g\<lparr>errorReportingEnabled := False\<rparr>;
          r1 = run E cmd g1;
          renameDetectionOk = fst (fst r1);
          g3 = (snd r1)\<lparr>errorReportingEnabled := True\<rparr>
      in if \<not> renameDetectionOk then run E runCmd g3
         else ((True, snd (fst r1)), g3))"

section \<open>Reference index\<close>

text \<open>The loop of \<^verbatim>\<open>Git::getRefSha\<close> over the reference map.\<close>

fun findRef :: "string \<Rightarrow> RefType \<Rightarrow> (string \<times> Reference) list \<Rightarrow> string option" where
  "findRef refName ty [] = None"
| "findRef refName ty ((key, rf) # rest) =
     (let any = (ty = ANY_REF) in
      if (any \<or> ty = TAG) \<and> refName \<in> set (tags rf) then Some key
      else if (any \<or> ty = BRANCH) \<and> refName \<in> set (branches rf) then Some key
      else if (any \<or> ty = RMT_BRANCH) \<and> refName \<in> set (remoteBranches rf) then Some key
      else if (any \<or> ty = REF) \<and> refName \<in> set (refs rf) then Some key
      else if (any \<or> ty = APPLIED \<or> ty = UN_APPLIED) \<and> stgitPatch rf = refName then Some key
      else findRef refName ty rest)"

definition getRefSha :: "Env \<Rightarrow> string \<Rightarrow> RefType \<Rightarrow> bool \<Rightarrow> Git \<Rightarrow> string \<times> Git" where
  "getRefSha E refName ty askGit g =
     (case findRef refName ty (refsShaMap g) of
        Some key \<Rightarrow> (key, g)
      | None \<Rightarrow>
          if \<not> askGit then ('''', g)
          else
            (let g1 = g\<lparr>errorReportingEnabled := False\<rparr>;
                 r = run E (''git rev-parse --revs-only '' @ refName) g1;
                 ok = fst (fst r);
                 runOutput = snd (fst r);
                 g3 = (snd r)\<lparr>errorReportingEnabled := True\<rparr>
             in ((if ok then trimmed runOutput else ''''), g3)))"

section \<open>Revision store queries\<close>

text \<open>
  Reading a vector at an index: \<^verbatim>\<open>QVector::operator[]\<close> is defined only within
  range, so the model says when an index is in range.
\<close>

definition at :: "'a list \<Rightarrow> int \<Rightarrow> 'a option" where
  "at xs i = (if 0 \<le> i \<and> i < int (length xs) then Some (xs ! nat i) else None)"

text \<open>
  \<^verbatim>\<open>Git::revLookup\<close>, on the main revision store (\<^verbatim>\<open>fh == NULL\<close>).
  \<^verbatim>\<open>QHash::value\<close> gives a null pointer for a key that is not stored.
\<close>

definition revLookup :: "Env \<Rightarrow> Git \<Rightarrow> string \<Rightarrow> Rev option" where
  "revLookup E g sha' = (if nullSha E sha' then None else revs g sha')"

definition getShortLog :: "Env \<Rightarrow> Git \<Rightarrow> string \<Rightarrow> string" where
  "getShortLog E g sha' = (case revLookup E g sha' of None \<Rightarrow> [] | Some r \<Rightarrow> shortLog r)"

text \<open>
  The queries below return \<open>None\<close> where the source would read \<^verbatim>\<open>revOrder\<close> out of
  range or dereference the null result of a lookup.
\<close>

definition getChilds :: "Env \<Rightarrow> Git \<Rightarrow> string \<Rightarrow> string list option" where
  "getChilds E g parent =
     (case revLookup E g parent of
        None \<Rightarrow> Some []
      | Some r \<Rightarrow>
          (case those (map (at (revOrder g)) (childs r)) of
             None \<Rightarrow> None
           | Some cs \<Rightarrow>
               (case those (map (\<lambda>c. map_option (\<lambda>r'. arg6 (orderIdx r') @ c) (revLookup E g c)) cs) of
                  None \<Rightarrow> None
                | Some numbered \<Rightarrow> Some (map (section_str '' '' (-1) (-1)) (sort numbered)))))"

text \<open>The body of the loop of \<^verbatim>\<open>Git::getNearTags\<close> for one index of the bucket.\<close>

definition nearTagLine :: "Git \<Rightarrow> int \<Rightarrow> string list option" where
  "nearTagLine g i =
     (case at (revOrder g) i of
        None \<Rightarrow> None
      | Some sha' \<Rightarrow>
          (let cap = '' ('' @ sha' @ '')'' in
           case map_of (refsShaMap g) sha' of
             None \<Rightarrow> Some []
           | Some rf \<Rightarrow> Some [join_str cap (tags rf) @ cap]))"

definition getNearTags :: "Env \<Rightarrow> Git \<Rightarrow> bool \<Rightarrow> string \<Rightarrow> string list option" where
  "getNearTags E g goDown sha' =
     (case revLookup E g sha' of
        None \<Rightarrow> Some []
      | Some r \<Rightarrow>
          (let nearRefsMaster = (if goDown then descRefsMaster r else ancRefsMaster r) in
           if nearRefsMaster = -1 then Some []
           else
             (case at (revOrder g) nearRefsMaster of
                None \<Rightarrow> None
              | Some m \<Rightarrow>
                  (case revLookup E g m of
                     None \<Rightarrow> None
                   | Some rm \<Rightarrow>
                       map_option concat
                         (those (map (nearTagLine g) (if goDown then descRefs rm else ancRefs rm)))))))"

text \<open>The body of the loop of \<^verbatim>\<open>Git::getDescendantBranches\<close> for one index.\<close>

definition descBranchLines :: "Git \<Rightarrow> bool \<Rightarrow> int \<Rightarrow> string list option" where
  "descBranchLines g shaOnly i =
     (case at (revOrder g) i of
        None \<Rightarrow> None
      | Some sha' \<Rightarrow>
          if shaOnly then Some [sha']
          else
            (let cap = '' ('' @ sha' @ '') '' in
             case map_of (refsShaMap g) sha' of
               None \<Rightarrow> Some []
             | Some rf \<Rightarrow>
                 Some ((if branches rf \<noteq> [] then [join_str '' '' (branches rf) @ cap] else []) @
                       (if remoteBranches rf \<noteq> [] then [join_str '' '' (remoteBranches rf) @ cap] else []))))"

definition getDescendantBranches :: "Env \<Rightarrow> Git \<Rightarrow> string \<Rightarrow> bool \<Rightarrow> string list option" where
  "getDescendantBranches E g sha' shaOnly =
     (case revLookup E g sha' of
        None \<Rightarrow> Some []
      | Some r \<Rightarrow>
          if descBrnMaster r = -1 then Some []
          else
            (case at (revOrder g) (descBrnMaster r) of
               None \<Rightarrow> None
             | Some m \<Rightarrow>
                 (case revLookup E g m of
                    None \<Rightarrow> None
                  | Some rm \<Rightarrow>
                      map_option concat (those (map (descBranchLines g shaOnly) (descBranches rm))))))"

section \<open>File-state cache\<close>

text \<open>
  \<^verbatim>\<open>Git::insertNewFiles\<close>: the diff text is parsed, the name tables grow, and the
  new \<^verbatim>\<open>RevFile\<close> is stored under the key; \<^verbatim>\<open>QHash::insert\<close> replaces the value of
  a key that is already stored.
\<close>

definition insertNewFiles :: "Env \<Rightarrow> string \<Rightarrow> string \<Rightarrow> Git \<Rightarrow> RevFile \<times> Git" where
  "insertNewFiles E key dat g =
     (let parsed = parseDiffFormat E dat (dirNamesVec g, fileNamesVec g);
          rf = fst parsed
      in (rf, g\<lparr>dirNamesVec := fst (snd parsed), fileNamesVec := snd (snd parsed),
                revsFiles := (revsFiles g)(key \<mapsto> rf)\<rparr>))"

definition getAllMergeFiles :: "Env \<Rightarrow> Rev \<Rightarrow> Git \<Rightarrow> RevFile option outcome" where
  "getAllMergeFiles E r g =
     (let mySha = ALL_MERGE_FILES E @ sha r in
      case revsFiles g mySha of
        Some rf \<Rightarrow> Ret (Some rf) g
      | None \<Rightarrow>
          (case processEvents E g of
             (Some i, g1) \<Rightarrow> Thrown i g1
           | (None, g1) \<Rightarrow>
               (let runCmd = ''git diff-tree --no-color -r -m '' @ sha r;
                    res = runDiffTreeWithRenameDetection E runCmd g1
                in if \<not> fst (fst res) then Ret None (snd res)
                   else (let ins = insertNewFiles E mySha (snd (fst res)) (snd res)
                         in Ret (Some (fst ins)) (snd ins)))))"

text \<open>
  \<^verbatim>\<open>Git::getFiles(sha, diffToSha, allFiles, path)\<close>. The revision record is looked
  up once, before anything else runs.
\<close>

definition getFiles :: "Env \<Rightarrow> string \<Rightarrow> string \<Rightarrow> bool \<Rightarrow> string \<Rightarrow> Git \<Rightarrow> RevFile option outcome" where
  "getFiles E sha' diffToSha allFiles path g =
     (case revLookup E g sha' of
        None \<Rightarrow> Ret None g
      | Some r \<Rightarrow>
          if length (parents r) = 0 then Ret None g
          else if 1 < length (parents r) \<and> diffToSha = [] \<and> allFiles then getAllMergeFiles E r g
          else if diffToSha \<noteq> [] \<and> sha' \<noteq> ZERO_SHA E then
            (let runCmd = ''git diff-tree --no-color -r -m '' @ diffToSha @ '' '' @ sha' @
                            (if path \<noteq> [] then '' '' @ path else [])
             in case processEvents E g of
                  (Some i, g1) \<Rightarrow> Thrown i g1
                | (None, g1) \<Rightarrow>
                    (let res = runDiffTreeWithRenameDetection E runCmd g1
                     in if \<not> fst (fst res) then Ret None (snd res)
                        else (let ins = insertNewFiles E (CUSTOM_SHA E) (snd (fst res)) (snd res)
                              in Ret (Some (fst ins)) (snd ins))))
          else
            (case revsFiles g (sha r) of
               Some rf \<Rightarrow> Ret (Some rf) g
             | None \<Rightarrow>
                 if sha' = ZERO_SHA E then Ret None g
                 else
                   (case processEvents E g of
                      (Some i, g1) \<Rightarrow> Thrown i g1
                    | (None, g1) \<Rightarrow>
                        (let runCmd = ''git diff-tree --no-color -r -c '' @ sha';
                             res = runDiffTreeWithRenameDetection E runCmd g1
                         in if \<not> fst (fst res) then Ret None (snd res)
                            else
                              (case revsFiles (snd res) (sha r) of
                                 Some rf \<Rightarrow> Ret (Some rf) (snd res)
                               | None \<Rightarrow>
                                   (let ins = insertNewFiles E sha' (snd (fst res))
                                                ((snd res)\<lparr>cacheNeedsUpdate := True\<rparr>)
                                    in Ret (Some (fst ins)) (snd ins)))))))"

text \<open>
  \<^verbatim>\<open>Git::isTreeModified\<close> calls \<^verbatim>\<open>getFiles(sha)\<close>: the other arguments are the
  defaults (no diff target, not all merge files, no path).
\<close>

definition isTreeModified :: "Env \<Rightarrow> string \<Rightarrow> Git \<Rightarrow> bool outcome" where
  "isTreeModified E sha' g =
     (case getFiles E sha' [] False [] g of
        Ret None g' \<Rightarrow> Ret True g'
      | Ret (Some f) g' \<Rightarrow>
          Ret (list_ex (\<lambda>i. \<not> statusCmp E f (int i) MODIFIED) [0..<length (paths f)]) g'
      | Thrown i g' \<Rightarrow> Thrown i g'
      | Crash \<Rightarrow> Crash)"

definition isParentOf :: "Env \<Rightarrow> Git \<Rightarrow> string \<Rightarrow> string \<Rightarrow> bool" where
  "isParentOf E g par child =
     (case revLookup E g child of
        None \<Rightarrow> False
      | Some c \<Rightarrow> length (parents c) = 1 \<and> parents c ! 0 = par)"

definition isSameFiles :: "Env \<Rightarrow> string \<Rightarrow> string \<Rightarrow> Git \<Rightarrow> bool outcome" where
  "isSameFiles E tree1Sha tree2Sha g =
     (if isParentOf E g tree1Sha tree2Sha then map_outcome Not (isTreeModified E tree2Sha g)
      else if isParentOf E g tree2Sha tree1Sha then map_outcome Not (isTreeModified E tree1Sha g)
      else
        (let runCmd = ''git diff-tree --no-color -r '' @ tree1Sha @ '' '' @ tree2Sha;
             res = run E runCmd g;
             runOutput = snd (fst res)
         in if \<not> fst (fst res) then Ret False (snd res)
            else
              (let isChanged = (contains_str runOutput ('' A'' @ [CHR 0x09]) \<or>
                                contains_str runOutput ('' D'' @ [CHR 0x09]))
               in Ret (\<not> isChanged) (snd res))))"

text \<open>
  A run of \<^verbatim>\<open>getFiles\<close> requests, one after the other, each on the state the one
  before left (also when it was left by an exception).
\<close>

fun getFilesRequests :: "Env \<Rightarrow> (string \<times> string \<times> bool \<times> string) list \<Rightarrow> Git \<Rightarrow> Git option" where
  "getFilesRequests E [] g = Some g"
| "getFilesRequests E ((sha', diffToSha, allFiles, path) # rest) g =
     (case getFiles E sha' diffToSha allFiles path g of
        Ret f g' \<Rightarrow> getFilesRequests E rest g'
      | Thrown i g' \<Rightarrow> getFilesRequests E rest g'
      | Crash \<Rightarrow> None)"

section \<open>File names\<close>

text \<open>
  The loop of \<^verbatim>\<open>Git::findFileIndex\<close> from entry \<open>i\<close> on. The name table is read
  first and the directory table only when the name matches; \<open>None\<close> is a read out of
  range of a table.
\<close>

fun findFileFrom :: "string list \<Rightarrow> string list \<Rightarrow> string \<Rightarrow> string \<Rightarrow> (int \<times> int) list \<Rightarrow> int \<Rightarrow> int option" where
  "findFileFrom fnames dnames nm dr [] i = Some (-1)"
| "findFileFrom fnames dnames nm dr ((d, n) # rest) i =
     (case at fnames n of
        None \<Rightarrow> None
      | Some f \<Rightarrow>
          if f = nm then
            (case at dnames d of
               None \<Rightarrow> None
             | Some dd \<Rightarrow> if dd = dr then Some i else findFileFrom fnames dnames nm dr rest (i + 1))
          else findFileFrom fnames dnames nm dr rest (i + 1))"

definition findFileIndex :: "Git \<Rightarrow> RevFile \<Rightarrow> string \<Rightarrow> int option" where
  "findFileIndex g rf name =
     (if name = [] then Some (-1)
      else
        (let idx = lastIndexOf CHR ''/'' name + 1;
             dr = take (nat idx) name;
             nm = drop (nat idx) name
         in findFileFrom (fileNamesVec g) (dirNamesVec g) nm dr (paths rf) 0))"

definition removeExtraFileInfo :: "string \<Rightarrow> string" where
  "removeExtraFileInfo rowName =
     (if contains_str rowName '' --> ''
      then section_str '' ('' 0 0 (section_str '' --> '' 1 1 rowName)
      else rowName)"

section \<open>Probes that may fail\<close>

text \<open>
  \<^verbatim>\<open>Git::checkEnvironment\<close>. The event posted for an old git version is kept as the
  pair of its two texts.
\<close>

definition checkEnvironment :: "Env \<Rightarrow> Git \<Rightarrow> Git" where
  "checkEnvironment E g =
     (let r = run E ''git --version'' g in
      if fst (fst r) then
        (let version = section_str ''.'' 0 2 (section_str '' '' (-1) (-1) (snd (fst r)));
             g1 = (if version < GIT_VERSION E
                   then (snd r)\<lparr>posted := posted (snd r) @
                          [(''Current git version is '' @ version @ '' but is required '' @
                              GIT_VERSION E @ '' or better'',
                            ''Your installed git is too old.'' @ [CHR 0x0A] @
                              ''Please upgrade to avoid possible misbehaviours.'')]\<rparr>
                   else snd r);
             g2 = g1\<lparr>errorReportingEnabled := False\<rparr>;
             h = run E ''source-highlight -V'' g2;
             found = fst (fst h);
             g3 = (snd h)\<lparr>isTextHighlighterFound := found, errorReportingEnabled := True\<rparr>
         in g3\<lparr>textHighlighterVersionFound :=
                  (if found then section_str [CHR 0x0A] 0 0 (snd (fst h))
                   else ''GNU source-highlight not installed'')\<rparr>)
      else snd r)"

text \<open>
  \<^verbatim>\<open>Git::userInfo\<close> fills the list it is given; the model returns the list. The
  output text of a command replaces \<^verbatim>\<open>user\<close> or \<^verbatim>\<open>email\<close> whether or not the
  command succeeded.
\<close>

definition userInfo :: "Env \<Rightarrow> Git \<Rightarrow> string list \<times> Git" where
  "userInfo E g =
     (let env = join_str '','' (systemEnvironment E);
          user = trimmed (section_str ''='' 1 (-1)
                   (section_str '','' 0 0 (section_str ''GIT_AUTHOR_NAME'' 1 (-1) env)));
          email = trimmed (section_str ''='' 1 (-1)
                    (section_str '','' 0 0 (section_str ''GIT_AUTHOR_EMAIL'' 1 (-1) env)));
          g1 = g\<lparr>errorReportingEnabled := False\<rparr>;
          r1 = run E ''git config user.name'' g1;
          r2 = run E ''git config user.email'' (snd r1);
          r3 = run E ''git config --global user.name'' (snd r2);
          r4 = run E ''git config --global user.email'' (snd r3)
      in ([''Environment'', user, email,
           ''Local config'', snd (fst r1), snd (fst r2),
           ''Global config'', snd (fst r3), snd (fst r4)],
          (snd r4)\<lparr>errorReportingEnabled := True\<rparr>))"

section \<open>Committing\<close>

definition quote :: "Env \<Rightarrow> string \<Rightarrow> string" where
  "quote E nm = QUOTE_CHAR E @ nm @ QUOTE_CHAR E"

definition quoteList :: "Env \<Rightarrow> string list \<Rightarrow> string" where
  "quoteList E sl = QUOTE_CHAR E @ join_str (QUOTE_CHAR E @ '' '' @ QUOTE_CHAR E) sl @ QUOTE_CHAR E"

text \<open>
  Modelled from the spec: \<^verbatim>\<open>writeToFile\<close> is not among the sources. It writes the
  text to the path and says whether it could; a file that could not be written is not
  there afterwards.
\<close>

definition writeToFile :: "Env \<Rightarrow> string \<Rightarrow> string \<Rightarrow> Git \<Rightarrow> bool \<times> Git" where
  "writeToFile E fileName dat g =
     (if canWrite E (fileSystem g) fileName
      then (True, g\<lparr>fileSystem := (fileSystem g)(fileName \<mapsto> dat)\<rparr>)
      else (False, g))"

text \<open>
  \<^verbatim>\<open>QDir dir(workDir); dir.remove(fileName)\<close>: Qt removes the file that
  \<^verbatim>\<open>QDir::filePath\<close> names, which is \<open>fileName\<close> itself when it is absolute and
  the name below the directory otherwise.
\<close>

definition dirFilePath :: "string \<Rightarrow> string \<Rightarrow> string" where
  "dirFilePath dir fileName =
     (if startsWith fileName ''/'' then fileName
      else if fileName = [] then dir
      else if dir \<noteq> [] \<and> last dir \<noteq> CHR ''/'' then dir @ ''/'' @ fileName
      else dir @ fileName)"

definition dirRemove :: "string \<Rightarrow> string \<Rightarrow> Git \<Rightarrow> Git" where
  "dirRemove dir fileName g = g\<lparr>fileSystem := (fileSystem g)(dirFilePath dir fileName := None)\<rparr>"

text \<open>Sequencing of calls that can end by an exception or a crash.\<close>

definition bindO :: "'a outcome \<Rightarrow> ('a \<Rightarrow> Git \<Rightarrow> 'b outcome) \<Rightarrow> 'b outcome" where
  "bindO m f = (case m of Ret a g \<Rightarrow> f a g | Thrown i g \<Rightarrow> Thrown i g | Crash \<Rightarrow> Crash)"

text \<open>
  The condition \<^verbatim>\<open>c && !run(cmd)\<close>: the command runs only when \<open>c\<close> holds, and
  the condition is true when it ran and failed.
\<close>

definition guardedRunFails :: "bool \<Rightarrow> Env \<Rightarrow> string \<Rightarrow> Git \<Rightarrow> bool \<times> Git" where
  "guardedRunFails c E cmd g =
     (if c then (let r = run E cmd g in (\<not> fst (fst r), snd r)) else (False, g))"

text \<open>
  \<^verbatim>\<open>errorReportingEnabled = false; run(cmd); errorReportingEnabled = true;\<close>
\<close>

definition quietRun :: "Env \<Rightarrow> string \<Rightarrow> Git \<Rightarrow> Git" where
  "quietRun E cmd g =
     (snd (run E cmd (g\<lparr>errorReportingEnabled := False\<rparr>)))\<lparr>errorReportingEnabled := True\<rparr>"

text \<open>
  \<^verbatim>\<open>Git::getOtherFiles\<close>. The source uses the result of \<^verbatim>\<open>getFiles(ZERO_SHA)\<close>
  without a null check.
\<close>

definition getOtherFiles :: "Env \<Rightarrow> string list \<Rightarrow> bool \<Rightarrow> Git \<Rightarrow> string list outcome" where
  "getOtherFiles E selFiles onlyInIndex g =
     (case getFiles E (ZERO_SHA E) [] False [] g of
        Ret None g' \<Rightarrow> Crash
      | Ret (Some fs) g' \<Rightarrow>
          Ret (concat (map (\<lambda>i.
                 (let fp = filePath E (dirNamesVec g') (fileNamesVec g') fs (int i) in
                  if fp \<notin> set selFiles \<and> (\<not> onlyInIndex \<or> statusCmp E fs (int i) IN_INDEX)
                  then [fp] else []))
               [0..<length (paths fs)])) g'
      | Thrown i g' \<Rightarrow> Thrown i g'
      | Crash \<Rightarrow> Crash)"

text \<open>
  The loop of \<^verbatim>\<open>Git::updateIndex\<close> that sorts the selected files into those to add
  and those to remove; \<open>None\<close> when it uses a null file list or reads a name table out
  of range.
\<close>

fun splitSelection :: "Env \<Rightarrow> Git \<Rightarrow> RevFile option \<Rightarrow> string list \<Rightarrow> (string list \<times> string list) option" where
  "splitSelection E g fo [] = Some ([], [])"
| "splitSelection E g fo (name # rest) =
     (case fo of
        None \<Rightarrow> None
      | Some fs \<Rightarrow>
          (case findFileIndex g fs name of
             None \<Rightarrow> None
           | Some idx \<Rightarrow>
               (case splitSelection E g fo rest of
                  None \<Rightarrow> None
                | Some (toAdd, toRemove) \<Rightarrow>
                    if statusCmp E fs idx DELETED then Some (toAdd, name # toRemove)
                    else Some (name # toAdd, toRemove))))"

text \<open>
  The end of \<^verbatim>\<open>Git::updateIndex\<close>: the two commands on the index, each run only
  for a list that is not empty; false when one of them fails.
\<close>

definition indexCommands :: "Env \<Rightarrow> string list \<Rightarrow> string list \<Rightarrow> Git \<Rightarrow> bool \<times> Git" where
  "indexCommands E toAdd toRemove g =
     (let a = guardedRunFails (toRemove \<noteq> []) E
                (''git rm --cached --ignore-unmatch -- '' @ quoteList E toRemove) g
      in if fst a then (False, snd a)
         else
           (let b = guardedRunFails (toAdd \<noteq> []) E
                      (''git add -- '' @ quoteList E toAdd) (snd a)
            in if fst b then (False, snd b) else (True, snd b)))"

definition updateIndex :: "Env \<Rightarrow> string list \<Rightarrow> Git \<Rightarrow> bool outcome" where
  "updateIndex E selFiles g =
     bindO (getFiles E (ZERO_SHA E) [] False [] g) (\<lambda>fo g1.
       case splitSelection E g1 fo selFiles of
         None \<Rightarrow> Crash
       | Some parts \<Rightarrow>
           (let r = indexCommands E (fst parts) (snd parts) g1 in Ret (fst r) (snd r)))"

text \<open>
  \<^verbatim>\<open>Git::commitFiles\<close> from the call of \<^verbatim>\<open>git reset\<close> to the assignment of
  \<^verbatim>\<open>ret\<close>: the value is \<^verbatim>\<open>ret\<close> at the label \<^verbatim>\<open>fail\<close>.
\<close>

definition commitSteps :: "Env \<Rightarrow> string list \<Rightarrow> string \<Rightarrow> string \<Rightarrow> string list \<Rightarrow> Git \<Rightarrow> bool outcome" where
  "commitSteps E selFiles cmtOptions msgFile notSel g =
     (let a = guardedRunFails (notSel \<noteq> []) E (''git reset -- '' @ quoteList E notSel) g
      in if fst a then Ret False (snd a)
         else
           bindO (updateIndex E selFiles (snd a)) (\<lambda>ok g3.
             if \<not> ok then Ret False g3
             else
               (let c = run E (''git commit'' @ cmtOptions @ '' -F '' @ quote E msgFile) g3
                in if \<not> fst (fst c) then Ret False (snd c)
                   else if notSel \<noteq> [] then updateIndex E notSel (snd c)
                   else Ret True (snd c))))"

text \<open>
  \<^verbatim>\<open>Git::commitFiles\<close>. Every \<^verbatim>\<open>goto fail\<close> and the normal end reach the label
  \<^verbatim>\<open>fail\<close>, where the message file is removed and \<^verbatim>\<open>ret\<close> is returned.
\<close>

definition commitFiles :: "Env \<Rightarrow> string list \<Rightarrow> string \<Rightarrow> bool \<Rightarrow> Git \<Rightarrow> bool outcome" where
  "commitFiles E selFiles msg amend g =
     (let msgFile = gitDir g @ ''/qgit_cmt_msg.txt'';
          w = writeToFile E msgFile msg g
      in if \<not> fst w then Ret False (snd w)
         else
           (let cmtOptions = (if cmtArgs E \<noteq> [] then '' '' @ cmtArgs E else []) @
                             (if signCmt E then '' -s'' else []) @
                             (if verifyCmt E then '' -v'' else []) @
                             (if amend then '' --amend'' else [])
            in bindO
                 (bindO (getOtherFiles E selFiles (optOnlyInIndex E) (snd w))
                    (commitSteps E selFiles cmtOptions msgFile))
                 (\<lambda>ret g'. Ret ret (dirRemove (workDir g') msgFile g'))))"

definition mkPatchFromWorkDir :: "Env \<Rightarrow> string \<Rightarrow> string \<Rightarrow> string list \<Rightarrow> Git \<Rightarrow> bool outcome" where
  "mkPatchFromWorkDir E msg patchFile fileList g =
     bindO (updateIndex E fileList g) (\<lambda>ok g1.
       if \<not> ok then Ret False g1
       else
         (let r = run E (''git diff -C HEAD -- '' @ quoteList E fileList) g1 in
          if \<not> fst (fst r) then Ret False (snd r)
          else
            (let patch = ''Subject: '' @ msg @ [CHR 0x0A] @ ''---'' @ [CHR 0x0A] @ snd (fst r);
                 w = writeToFile E patchFile patch (snd r)
             in Ret (fst w) (snd w))))"

text \<open>
  Step 3 of \<^verbatim>\<open>Git::stgCommit\<close>: the clean state, then fold or import; the result
  is false where the source jumps to \<^verbatim>\<open>fail_and_unstash\<close>.
\<close>

definition stgImportOrFold :: "Env \<Rightarrow> bool \<Rightarrow> string \<Rightarrow> string \<Rightarrow> string \<Rightarrow> Git \<Rightarrow> bool \<times> Git" where
  "stgImportOrFold E fold' msg patchName patchFile g =
     (let a = run E ''stg status --reset'' g in
      if \<not> fst (fst a) then (False, snd a)
      else if fold' then
        (let b = guardedRunFails (msg \<noteq> []) E
                   (''stg edit --message '' @ quote E (trimmed msg)) (snd a)
         in if fst b then (False, snd b)
            else
              (let c = run E (''stg fold '' @ quote E patchFile) (snd b) in
               if \<not> fst (fst c) then (False, snd c)
               else (let d = run E ''stg refresh'' (snd c) in (fst (fst d), snd d))))
      else
        (let e = run E (''stg import --mail --name '' @ quote E patchName @ '' '' @
                          quote E patchFile) (snd a)
         in (fst (fst e), snd e)))"

text \<open>The code at the label \<^verbatim>\<open>fail_and_unstash\<close>.\<close>

definition failAndUnstash :: "Env \<Rightarrow> bool \<Rightarrow> Git \<Rightarrow> Git" where
  "failAndUnstash E partialSelection g =
     (if partialSelection then quietRun E ''git stash pop'' (snd (run E ''git reset'' g)) else g)"

text \<open>
  \<^verbatim>\<open>Git::stgCommit\<close> from step 2 to the assignment of \<^verbatim>\<open>ret\<close>, once the
  patch file is made: the value is \<^verbatim>\<open>ret\<close> at the label \<^verbatim>\<open>exit\<close>.
\<close>

definition stgSteps :: "Env \<Rightarrow> string \<Rightarrow> string \<Rightarrow> bool \<Rightarrow> string \<Rightarrow> bool \<Rightarrow> string list \<Rightarrow> Git \<Rightarrow> bool outcome" where
  "stgSteps E msg patchName fold' patchFile partialSelection notSel g3 =
     (let g4 = (if partialSelection then quietRun E ''git stash'' g3 else g3);
          s = stgImportOrFold E fold' msg patchName patchFile g4
      in if \<not> fst s then Ret False (failAndUnstash E partialSelection (snd s))
         else if partialSelection then
           (let g6 = quietRun E ''git stash pop'' (snd s) in
            if notSel \<noteq> [] then updateIndex E notSel g6 else Ret True g6)
         else Ret True (snd s))"

text \<open>
  \<^verbatim>\<open>Git::stgCommit\<close> from its start to the assignment of \<^verbatim>\<open>ret\<close>.
\<close>

definition stgBody :: "Env \<Rightarrow> string list \<Rightarrow> string \<Rightarrow> string \<Rightarrow> bool \<Rightarrow> string \<Rightarrow> Git \<Rightarrow> bool outcome" where
  "stgBody E selFiles msg patchName fold' patchFile g =
     bindO (getOtherFiles E selFiles (\<not> optOnlyInIndex E) g) (\<lambda>other g1.
       (let partialSelection = (other \<noteq> []) in
        bindO (if partialSelection then getOtherFiles E selFiles (optOnlyInIndex E) g1
               else Ret [] g1) (\<lambda>notSel g2.
          bindO (mkPatchFromWorkDir E msg patchFile selFiles g2) (\<lambda>made g3.
            if \<not> made then Ret False g3
            else stgSteps E msg patchName fold' patchFile partialSelection notSel g3))))"

text \<open>
  \<^verbatim>\<open>Git::stgCommit\<close>. Every path reaches the labels \<^verbatim>\<open>fail\<close> and \<^verbatim>\<open>exit\<close>, where
  the patch file is removed and \<^verbatim>\<open>ret\<close> is returned.
\<close>

definition stgCommit :: "Env \<Rightarrow> string list \<Rightarrow> string \<Rightarrow> string \<Rightarrow> bool \<Rightarrow> Git \<Rightarrow> bool outcome" where
  "stgCommit E selFiles msg patchName fold' g =
     (let patchFile = gitDir g @ ''/qgit_tmp_patch.txt'' in
      bindO (stgBody E selFiles msg patchName fold' patchFile g)
        (\<lambda>ret g'. Ret ret (dirRemove (workDir g') patchFile g')))"

section \<open>Opening a repository\<close>

text \<open>
  \<^verbatim>\<open>MainImpl::setRepository\<close> calls \<^verbatim>\<open>Git::init\<close>, which processes pending events;
  a further call of \<^verbatim>\<open>setRepository\<close> can arrive there, inside the first one. A call
  is therefore given with what its surroundings do while it runs: the directory that
  \<^verbatim>\<open>getBaseDir\<close> answers, the calls that arrive while \<^verbatim>\<open>init\<close> processes events, and
  how \<^verbatim>\<open>init\<close> ends (it returns a result, or an exception leaves it).

  \<open>sessionsInFlight\<close> and \<open>sessionsPeak\<close> are not members of the class: they count the
  calls that have passed the guard and have not ended, and the largest such count.
\<close>

record MainImpl =
  setRepositoryBusy :: bool
  curDir :: string
  windowTitle :: string
  statusBarMessage :: string
  globalActionsEnabled :: bool
  sessionsInFlight :: nat
  sessionsPeak :: nat

datatype ending = InitReturns bool | InitThrows int

datatype call = SetRepository string bool bool string "call list" ending

datatype mresult = Returned MainImpl | Unwound int MainImpl

text \<open>
  The macros of the exception manager are not among the sources: whether
  \<^verbatim>\<open>EM_MATCH\<close> recognises an exception as \<^verbatim>\<open>exExiting\<close>, and the exception that
  \<^verbatim>\<open>EM_THROW_PENDING\<close> throws, if any, are parameters.
\<close>

record ExceptionManager =
  matchesExiting :: "int \<Rightarrow> bool"
  throwPending :: "int option"

definition sessionEnters :: "MainImpl \<Rightarrow> MainImpl" where
  "sessionEnters m =
     m\<lparr>sessionsInFlight := Suc (sessionsInFlight m),
       sessionsPeak := max (sessionsPeak m) (Suc (sessionsInFlight m))\<rparr>"

definition sessionEnds :: "MainImpl \<Rightarrow> MainImpl" where
  "sessionEnds m = m\<lparr>sessionsInFlight := sessionsInFlight m - 1\<rparr>"

text \<open>The \<^verbatim>\<open>catch (int i)\<close> block of \<^verbatim>\<open>setRepository\<close>.\<close>

definition catchBlock :: "ExceptionManager \<Rightarrow> int \<Rightarrow> MainImpl \<Rightarrow> mresult" where
  "catchBlock X i m =
     (if matchesExiting X i
      then (case throwPending X of Some j \<Rightarrow> Unwound j m | None \<Rightarrow> Returned m)
      else Unwound i m)"

fun setRepository :: "ExceptionManager \<Rightarrow> call \<Rightarrow> MainImpl \<Rightarrow> mresult"
  and processPending :: "ExceptionManager \<Rightarrow> call list \<Rightarrow> MainImpl \<Rightarrow> mresult" where
  "setRepository X (SetRepository newDir refresh keepSelection baseDir arriving ending) m =
     (if setRepositoryBusy m then Returned m
      else
        (let m1 = sessionEnters (m\<lparr>setRepositoryBusy := True\<rparr>);
             m2 = m1\<lparr>curDir := baseDir, windowTitle := baseDir @ '' - QGit'',
                     globalActionsEnabled := False\<rparr>
         in case processPending X arriving m2 of
              Unwound i m3 \<Rightarrow> catchBlock X i (sessionEnds m3)
            | Returned m3 \<Rightarrow>
                (case ending of
                   InitThrows i \<Rightarrow> catchBlock X i (sessionEnds m3)
                 | InitReturns ok \<Rightarrow>
                     Returned (sessionEnds
                       ((if ok then m3\<lparr>globalActionsEnabled := True\<rparr>
                         else m3\<lparr>statusBarMessage := ''Not a git archive''\<rparr>)
                        \<lparr>setRepositoryBusy := False\<rparr>)))))"
| "processPending X [] m = Returned m"
| "processPending X (c # cs) m =
     (case setRepository X c m of
        Returned m' \<Rightarrow> processPending X cs m'
      | Unwound i m' \<Rightarrow> Unwound i m')"

section \<open>The other commands of \<^verbatim>\<open>git.cpp\<close>\<close>






































section \<open>Notions used in the statements\<close>

text \<open>
  The reference index maps a tag name (a branch name) to an identifier: an entry under
  that identifier holds the name, and no entry under another identifier does.
\<close>

definition mapsTag :: "Git \<Rightarrow> string \<Rightarrow> string \<Rightarrow> bool" where
  "mapsTag g t a =
     (list_ex (\<lambda>(k, rf). k = a \<and> t \<in> set (tags rf)) (refsShaMap g) \<and>
      list_all (\<lambda>(k, rf). t \<in> set (tags rf) \<longrightarrow> k = a) (refsShaMap g))"

definition mapsBranch :: "Git \<Rightarrow> string \<Rightarrow> string \<Rightarrow> bool" where
  "mapsBranch g b a =
     (list_ex (\<lambda>(k, rf). k = a \<and> b \<in> set (branches rf)) (refsShaMap g) \<and>
      list_all (\<lambda>(k, rf). b \<in> set (branches rf) \<longrightarrow> k = a) (refsShaMap g))"

text \<open>A name that no entry of the reference index holds, in any of its five places.\<close>

definition inNoEntry :: "Git \<Rightarrow> string \<Rightarrow> bool" where
  "inNoEntry g n =
     list_all (\<lambda>(k, rf). n \<notin> set (tags rf) \<and> n \<notin> set (branches rf) \<and>
                 n \<notin> set (remoteBranches rf) \<and> n \<notin> set (refs rf) \<and> stgitPatch rf \<noteq> n)
       (refsShaMap g)"

text \<open>
  An entry of a file list, a pair of a directory index and a name index, is stored under
  a name when the name tables give, at the two indexes, the part of the name up to its
  last slash and the part after it: the comparison of \<^verbatim>\<open>findFileIndex\<close>. The tables
  cover a file list when every index of every entry is within them.
\<close>

definition storedUnder :: "Git \<Rightarrow> string \<Rightarrow> int \<times> int \<Rightarrow> bool" where
  "storedUnder g name e =
     (let idx = lastIndexOf CHR ''/'' name + 1
      in at (fileNamesVec g) (snd e) = Some (drop (nat idx) name) \<and>
         at (dirNamesVec g) (fst e) = Some (take (nat idx) name))"

definition tablesCover :: "Git \<Rightarrow> RevFile \<Rightarrow> bool" where
  "tablesCover g rf =
     list_all (\<lambda>e. at (dirNamesVec g) (fst e) \<noteq> None \<and> at (fileNamesVec g) (snd e) \<noteq> None) (paths rf)"



















section \<open>Example data\<close>

text \<open>
  A small repository for the concrete instances below: the root commit \<open>a\<close>, its child
  \<open>b\<close> and the child \<open>c\<close> of \<open>b\<close>, loaded newest first; the tag \<open>v1\<close> on \<open>a\<close> and the
  branch \<open>main\<close> on \<open>b\<close>; the file list of \<open>b\<close> is cached.
\<close>

definition exampleRev :: "string \<Rightarrow> string list \<Rightarrow> int \<Rightarrow> int list \<Rightarrow> Rev" where
  "exampleRev s ps idx cs =
     \<lparr>sha = s, parents = ps, orderIdx = idx, childs = cs, descBrnMaster = -1,
      descRefsMaster = -1, ancRefsMaster = -1, descBranches = [], descRefs = [], ancRefs = [],
      shortLog = ''log of '' @ s, longLog = []\<rparr>"

definition exampleRevFile :: RevFile where
  "exampleRevFile =
     \<lparr>paths = [(0, 0)], status = [MODIFIED], extStatus = [], onlyModified = True\<rparr>"

definition exampleGit :: Git where
  "exampleGit =
     \<lparr>revs = [''a'' \<mapsto> exampleRev ''a'' [] 2 [1],
              ''b'' \<mapsto> exampleRev ''b'' [''a''] 1 [0],
              ''c'' \<mapsto> exampleRev ''c'' [''b''] 0 []],
      revOrder = [''c'', ''b'', ''a''],
      refsShaMap =
        [(''a'', \<lparr>tags = [''v1''], branches = [], remoteBranches = [], refs = [], stgitPatch = [],
                  type = [TAG], tagObj = ''t1'', tagMsg = []\<rparr>),
         (''b'', \<lparr>tags = [], branches = [''main''], remoteBranches = [], refs = [], stgitPatch = [],
                  type = [BRANCH], tagObj = [], tagMsg = []\<rparr>)],
      revsFiles = [''b'' \<mapsto> exampleRevFile],
      dirNamesVec = [[]],
      fileNamesVec = [''README''],
      errorReportingEnabled = True,
      cacheNeedsUpdate = False,
      workDir = ''/repo'',
      gitDir = ''/repo/.git'',
      isTextHighlighterFound = False,
      textHighlighterVersionFound = [],
      posted = [],
      invocations = [],
      fileSystem = Map.empty,
      isGIT = True,
      isStGIT = False\<rparr>"

text \<open>
  Surroundings for the instances: the tool is given; an identifier is null when it is
  empty; the parser yields a list of one modified file and keeps the text it was given
  in the extended status; no event is pending.
\<close>

definition exampleEnv :: "(Invocation list \<Rightarrow> string \<Rightarrow> string \<Rightarrow> bool \<times> string) \<Rightarrow> Env" where
  "exampleEnv t =
     \<lparr>tool = t,
      nullSha = (\<lambda>s. s = []),
      ZERO_SHA = ''0000'',
      CUSTOM_SHA = ''*CUSTOM*'',
      ALL_MERGE_FILES = ''ALL_MERGE_FILES'',
      QUOTE_CHAR = ''$'',
      GIT_VERSION = ''1.5.5'',
      parseDiffFormat = (\<lambda>dat tables. (exampleRevFile\<lparr>extStatus := [dat]\<rparr>, tables)),
      statusCmp = (\<lambda>rf i f. f = ANY \<or> (if onlyModified rf then MODIFIED else status rf ! nat i) = f),
      filePath = (\<lambda>dn fn rf i. dn ! nat (fst (paths rf ! nat i)) @ fn ! nat (snd (paths rf ! nat i))),
      processEvents = (\<lambda>g. (None, g)),
      canWrite = (\<lambda>fs p. True),
      cmtArgs = [],
      signCmt = False,
      verifyCmt = False,
      optOnlyInIndex = True,
      systemEnvironment = [],
      processEventsNoInput = (\<lambda>g. (None, g)),
      populateRenamedPatches = (\<lambda>renamedSha newNames g. ((False, []), g)),
      removePgp = (\<lambda>s. s),
      sortTree = (\<lambda>ti. ti),
      amPOpt = [],
      fmtPOpt = [],
      signPatch = False,
      numbers = False,
      SCRIPT_EXT = ''.sh''\<rparr>"

text \<open>A tool that always fails, and one that fails exactly with rename detection.\<close>

definition failingTool :: "Invocation list \<Rightarrow> string \<Rightarrow> string \<Rightarrow> bool \<times> string" where
  "failingTool h d c = (False, [])"


definition workingTool :: "Invocation list \<Rightarrow> string \<Rightarrow> string \<Rightarrow> bool \<times> string" where
  "workingTool h d c = (True, ''M README'')"

text \<open>A tool that succeeds and answers with the text of the command.\<close>

definition echoTool :: "Invocation list \<Rightarrow> string \<Rightarrow> string \<Rightarrow> bool \<times> string" where
  "echoTool h d c = (True, c)"

text \<open>
  A file list with a rename of \<open>old.txt\<close> to \<open>new.txt\<close>, in two forms: with an entry
  for the new name and an entry for the old name, and with the entry for the new name
  only. The formatted rename is the extended status.
\<close>

definition renameGit :: Git where
  "renameGit = exampleGit\<lparr>dirNamesVec := [[]], fileNamesVec := [''new.txt'', ''old.txt'']\<rparr>"

definition renameFile :: RevFile where
  "renameFile =
     \<lparr>paths = [(0, 0), (0, 1)], status = [NEW, DELETED],
      extStatus = [''old.txt --> new.txt (R100%)'', ''old.txt --> new.txt (R100%)''],
      onlyModified = False\<rparr>"

definition renameFileOneEntry :: RevFile where
  "renameFileOneEntry =
     \<lparr>paths = [(0, 0)], status = [RENAMED],
      extStatus = [''old.txt --> new.txt (R100%)''], onlyModified = False\<rparr>"

text \<open>
  The example repository with uncommitted changes: the record of the working
  directory, a child of \<open>c\<close>, with its file list in the cache.
\<close>

definition workingGit :: Git where
  "workingGit =
     exampleGit\<lparr>revs := (revs exampleGit)(''0000'' \<mapsto> exampleRev ''0000'' [''c''] 0 []),
                revsFiles := (revsFiles exampleGit)(''0000'' \<mapsto> exampleRevFile)\<rparr>"

text \<open>
  A main window with no repository open, an exception manager for which exception 1
  is \<^verbatim>\<open>exExiting\<close> and nothing is pending, and a call that opens \<open>/repo\<close> while two
  further calls arrive during its \<^verbatim>\<open>init\<close>.
\<close>

definition idleWindow :: MainImpl where
  "idleWindow =
     \<lparr>setRepositoryBusy = False, curDir = [], windowTitle = [], statusBarMessage = [],
      globalActionsEnabled = False, sessionsInFlight = 0, sessionsPeak = 0\<rparr>"

definition exampleManager :: ExceptionManager where
  "exampleManager = \<lparr>matchesExiting = (\<lambda>i. i = 1), throwPending = None\<rparr>"

definition refreshStorm :: call where
  "refreshStorm =
     SetRepository ''/repo'' False False ''/repo''
       [SetRepository ''/other'' False False ''/other'' [] (InitReturns False),
        SetRepository ''/repo'' True True ''/repo'' [] (InitThrows 2)]
       (InitReturns True)"

text \<open>
  A call during whose \<^verbatim>\<open>init\<close> the window is closed: \<^verbatim>\<open>closeEvent\<close> raises
  \<^verbatim>\<open>exExiting\<close>, and the exception leaves \<^verbatim>\<open>init\<close>.
\<close>

definition closingCall :: call where
  "closingCall = SetRepository ''/repo'' False False ''/repo'' [] (InitThrows 1)"



section \<open>Facts about the string operations\<close>

lemma startsWith_append: "startsWith (p @ rest) p"
  by (induction p) auto

lemma startsWith_split: "startsWith s p \<Longrightarrow> \<exists>rest. s = p @ rest"
  by (induction s p rule: startsWith.induct) auto

lemma replaceFrom_skip:
  "replaceFrom (length xs) old new (xs @ rest) = replaceFrom 0 old new rest"
  by (induction xs) auto

lemma replace_str_prefix:
  assumes "old \<noteq> []"
  shows "replace_str old new (old @ rest) = new @ replace_str old new rest"
proof -
  from assms obtain c cs where old: "old = c # cs"
    by (cases old) auto
  have "replaceFrom 0 old new (old @ rest) = new @ replaceFrom (length cs) old new (cs @ rest)"
    using startsWith_append [of old rest] by (simp add: old)
  then show ?thesis
    by (simp add: replace_str_def replaceFrom_skip)
qed

lemma diff_tree_rename_prefix:
  assumes "startsWith runCmd ''git diff-tree''"
  shows "startsWith (replace_str ''git diff-tree'' ''git diff-tree -C'' runCmd) ''git diff-tree -C''"
proof -
  from assms obtain rest where "runCmd = ''git diff-tree'' @ rest"
    using startsWith_split by blast
  then have "replace_str ''git diff-tree'' ''git diff-tree -C'' runCmd =
      ''git diff-tree -C'' @ replace_str ''git diff-tree'' ''git diff-tree -C'' rest"
    using replace_str_prefix [of "''git diff-tree''" "''git diff-tree -C''" rest] by simp
  then show ?thesis
    using startsWith_append [of "''git diff-tree -C''"] by simp
qed

section \<open>Resolving a reference name\<close>

lemma findRef_tag:
  "list_ex (\<lambda>(k, rf). k = a \<and> t \<in> set (tags rf)) rs \<Longrightarrow>
   list_all (\<lambda>(k, rf). t \<in> set (tags rf) \<longrightarrow> k = a) rs \<Longrightarrow>
   findRef t TAG rs = Some a"
  by (induction rs) (auto simp: Let_def)

lemma findRef_branch:
  "list_ex (\<lambda>(k, rf). k = a \<and> b \<in> set (branches rf)) rs \<Longrightarrow>
   list_all (\<lambda>(k, rf). b \<in> set (branches rf) \<longrightarrow> k = a) rs \<Longrightarrow>
   findRef b BRANCH rs = Some a"
  by (induction rs) (auto simp: Let_def)

lemma findRef_none:
  "list_all (\<lambda>(k, rf). n \<notin> set (tags rf) \<and> n \<notin> set (branches rf) \<and>
                 n \<notin> set (remoteBranches rf) \<and> n \<notin> set (refs rf) \<and> stgitPatch rf \<noteq> n) rs \<Longrightarrow>
   findRef n ty rs = None"
  by (induction rs) (auto simp: Let_def)

text \<open>
  C3. When the reference index maps the tag name \<open>t\<close> to \<open>a\<close>, \<^verbatim>\<open>getRefSha\<close> for
  \<open>t\<close> and \<^verbatim>\<open>TAG\<close> returns \<open>a\<close>; when it maps the branch name \<open>b\<close> to \<open>a'\<close>,
  \<^verbatim>\<open>getRefSha\<close> for \<open>b\<close> and \<^verbatim>\<open>BRANCH\<close> returns \<open>a'\<close>; both without a launch of
  the tool and whatever \<open>askGit\<close> is. For a name that no entry holds, the result is the
  empty identifier when \<open>askGit\<close> is false; when it is true, \<open>git rev-parse\<close> is
  launched once for the name, with error reporting off, and the result is still the
  empty identifier when that launch fails. (An entry without a patch holds the empty
  text as its patch name, so the empty name counts as held by such an entry.)
\<close>

theorem getRefSha_resolves:
  "(mapsTag g t a \<longrightarrow> getRefSha E t TAG askGit g = (a, g)) \<and>
   (mapsBranch g b a' \<longrightarrow> getRefSha E b BRANCH askGit g = (a', g)) \<and>
   (inNoEntry g n \<longrightarrow>
      getRefSha E n ty False g = ([], g) \<and>
      (let probe = ''git rev-parse --revs-only '' @ n;
           answer = tool E (invocations g) (workDir g) probe;
           res = getRefSha E n ty True g
       in invocations (snd res) = invocations g @
            [\<lparr>command = probe, directory = workDir g, reporting = False, succeeded = fst answer\<rparr>] \<and>
          (\<not> fst answer \<longrightarrow> fst res = [])))"
proof (intro conjI impI)
  assume "mapsTag g t a"
  then have "findRef t TAG (refsShaMap g) = Some a"
    by (simp add: mapsTag_def findRef_tag)
  then show "getRefSha E t TAG askGit g = (a, g)"
    by (simp add: getRefSha_def)
next
  assume "mapsBranch g b a'"
  then have "findRef b BRANCH (refsShaMap g) = Some a'"
    by (simp add: mapsBranch_def findRef_branch)
  then show "getRefSha E b BRANCH askGit g = (a', g)"
    by (simp add: getRefSha_def)
next
  assume "inNoEntry g n"
  then have none: "findRef n ty (refsShaMap g) = None"
    by (simp add: inNoEntry_def findRef_none)
  then show "getRefSha E n ty False g = ([], g)"
    by (simp add: getRefSha_def)
  from none show "let probe = ''git rev-parse --revs-only '' @ n;
           answer = tool E (invocations g) (workDir g) probe;
           res = getRefSha E n ty True g
       in invocations (snd res) = invocations g @
            [\<lparr>command = probe, directory = workDir g, reporting = False, succeeded = fst answer\<rparr>] \<and>
          (\<not> fst answer \<longrightarrow> fst res = [])"
    by (simp add: getRefSha_def run_def Let_def)
qed

theorem getRefSha_resolves_witness:
  "mapsTag exampleGit ''v1'' ''a'' \<and> mapsBranch exampleGit ''main'' ''b'' \<and>
   inNoEntry exampleGit ''nonexistent'' \<and>
   getRefSha (exampleEnv failingTool) ''v1'' TAG True exampleGit = (''a'', exampleGit) \<and>
   getRefSha (exampleEnv failingTool) ''main'' BRANCH True exampleGit = (''b'', exampleGit) \<and>
   getRefSha (exampleEnv failingTool) ''nonexistent'' ANY_REF False exampleGit = ([], exampleGit) \<and>
   fst (getRefSha (exampleEnv failingTool) ''nonexistent'' ANY_REF True exampleGit) = [] \<and>
   map command (invocations (snd (getRefSha (exampleEnv failingTool) ''nonexistent'' ANY_REF True
     exampleGit))) = [''git rev-parse --revs-only nonexistent'']"
  using getRefSha_resolves [of exampleGit "''v1''" "''a''" "exampleEnv failingTool" True
          "''main''" "''b''" "''nonexistent''" ANY_REF]
  by (simp add: mapsTag_def mapsBranch_def inNoEntry_def exampleGit_def exampleEnv_def
      failingTool_def Let_def)

section \<open>Queries on an identifier that is not loaded\<close>

text \<open>
  C5. For an identifier without a record in the revision store, \<^verbatim>\<open>revLookup\<close>
  returns the null result, and the queries for the children, the near tags, the
  descendant branches and the short log return an empty result; none of them reaches
  a read out of range or a null dereference.
\<close>

theorem unknown_identifier_queries_empty:
  "revs g sha' = None \<Longrightarrow>
   revLookup E g sha' = None \<and> getChilds E g sha' = Some [] \<and>
   getNearTags E g goDown sha' = Some [] \<and> getDescendantBranches E g sha' shaOnly = Some [] \<and>
   getShortLog E g sha' = []"
  by (simp add: revLookup_def getChilds_def getNearTags_def getDescendantBranches_def
      getShortLog_def)

theorem unknown_identifier_queries_empty_witness:
  "revs exampleGit ''zzz'' = None \<and>
   revLookup (exampleEnv failingTool) exampleGit ''zzz'' = None \<and>
   getChilds (exampleEnv failingTool) exampleGit ''zzz'' = Some [] \<and>
   getNearTags (exampleEnv failingTool) exampleGit True ''zzz'' = Some [] \<and>
   getDescendantBranches (exampleEnv failingTool) exampleGit ''zzz'' False = Some [] \<and>
   getShortLog (exampleEnv failingTool) exampleGit ''zzz'' = []"
proof -
  have h: "revs exampleGit ''zzz'' = None"
    by (simp add: exampleGit_def)
  show ?thesis
    using h unknown_identifier_queries_empty [OF h] by simp
qed

section \<open>The file list of a revision\<close>

lemma runDiffTree_invocations:
  "\<exists>extra. invocations (snd (runDiffTreeWithRenameDetection E c g)) = invocations g @ extra \<and>
     set (map command extra) \<subseteq> {replace_str ''git diff-tree'' ''git diff-tree -C'' c, c}"
  by (simp add: runDiffTreeWithRenameDetection_def run_def Let_def)

lemma runDiffTree_revsFiles:
  "revsFiles (snd (runDiffTreeWithRenameDetection E c g)) = revsFiles g"
  by (simp add: runDiffTreeWithRenameDetection_def run_def Let_def)

lemma insertNewFiles_invocations: "invocations (snd (insertNewFiles E k d g)) = invocations g"
  by (simp add: insertNewFiles_def Let_def)

lemma insertNewFiles_revsFiles:
  "revsFiles (snd (insertNewFiles E k d g)) = (revsFiles g)(k \<mapsto> fst (insertNewFiles E k d g))"
  by (simp add: insertNewFiles_def Let_def)

text \<open>
  C10. For a root commit (a record without parents) and for an identifier without a
  record, \<^verbatim>\<open>getFiles\<close> returns the null result and leaves the state as it was:
  nothing is launched and nothing is put into the file cache.
\<close>

theorem getFiles_root_or_unknown:
  "revs g sha' = None \<or> (\<exists>r. revs g sha' = Some r \<and> parents r = []) \<Longrightarrow>
   getFiles E sha' diffToSha allFiles path g = Ret None g"
  by (auto simp: getFiles_def revLookup_def)

theorem getFiles_root_or_unknown_witness:
  "revs exampleGit ''zzz'' = None \<and>
   (\<exists>r. revs exampleGit ''a'' = Some r \<and> parents r = []) \<and>
   getFiles (exampleEnv workingTool) ''zzz'' ''b'' True [] exampleGit = Ret None exampleGit \<and>
   getFiles (exampleEnv workingTool) ''a'' ''b'' True [] exampleGit = Ret None exampleGit"
proof -
  have h1: "revs exampleGit ''zzz'' = None"
    by (simp add: exampleGit_def)
  have h2: "\<exists>r. revs exampleGit ''a'' = Some r \<and> parents r = []"
    by (simp add: exampleGit_def exampleRev_def)
  show ?thesis
    using h1 h2 getFiles_root_or_unknown [of exampleGit "''zzz''"]
      getFiles_root_or_unknown [of exampleGit "''a''"]
    by simp
qed

section \<open>Comparing the files of a parent and its child\<close>

lemma getFiles_cached:
  assumes "revLookup E g y = Some r" "length (parents r) = 1" "revsFiles g (sha r) = Some f"
  shows "getFiles E y [] False [] g = Ret (Some f) g"
  using assms by (simp add: getFiles_def)

lemma getFiles_default_launches:
  assumes "revLookup E g y = Some r" "length (parents r) = 1"
    and "getFiles E y [] False [] g = Ret fo g'"
  shows "g' = g \<or>
    (\<exists>extra. invocations g' = invocations (snd (processEvents E g)) @ extra \<and>
       set (map command extra) \<subseteq>
         {replace_str ''git diff-tree'' ''git diff-tree -C'' (''git diff-tree --no-color -r -c '' @ y),
          ''git diff-tree --no-color -r -c '' @ y})"
proof (cases "revsFiles g (sha r) = None \<and> y \<noteq> ZERO_SHA E")
  case False
  with assms show ?thesis
    by (auto simp: getFiles_def split: option.splits if_splits)
next
  case True
  obtain e g1 where ev: "processEvents E g = (e, g1)"
    by (cases "processEvents E g")
  let ?c = "''git diff-tree --no-color -r -c '' @ y"
  let ?res = "runDiffTreeWithRenameDetection E ?c g1"
  from runDiffTree_invocations [of E ?c g1] obtain extra where
    ex: "invocations (snd ?res) = invocations g1 @ extra"
      "set (map command extra) \<subseteq> {replace_str ''git diff-tree'' ''git diff-tree -C'' ?c, ?c}"
    by blast
  from assms True ev have "invocations g' = invocations (snd ?res)"
    by (auto simp: getFiles_def Let_def insertNewFiles_invocations split: option.splits if_splits)
  with ex ev show ?thesis by auto
qed

lemma two_tree_diff_differs:
  assumes "x \<noteq> ''-c''"
  shows "''git diff-tree --no-color -r '' @ x @ '' '' @ y \<notin>
    {replace_str ''git diff-tree'' ''git diff-tree -C'' (''git diff-tree --no-color -r -c '' @ y),
     ''git diff-tree --no-color -r -c '' @ y}"
proof -
  have "startsWith (replace_str ''git diff-tree'' ''git diff-tree -C''
      (''git diff-tree --no-color -r -c '' @ y)) ''git diff-tree -C''"
    by (rule diff_tree_rename_prefix) simp
  moreover have "\<not> startsWith (''git diff-tree --no-color -r '' @ x @ '' '' @ y) ''git diff-tree -C''"
    by simp
  ultimately have a: "''git diff-tree --no-color -r '' @ x @ '' '' @ y \<noteq>
      replace_str ''git diff-tree'' ''git diff-tree -C'' (''git diff-tree --no-color -r -c '' @ y)"
    by metis
  have "(x @ '' '') @ y \<noteq> ''-c '' @ y"
  proof
    assume "(x @ '' '') @ y = ''-c '' @ y"
    then have "x @ '' '' = ''-c ''"
      by (simp only: append_same_eq)
    then have "x @ '' '' = ''-c'' @ '' ''"
      by simp
    then have "x = ''-c''"
      by (simp only: append_same_eq)
    with assms show False by simp
  qed
  then have b: "''git diff-tree --no-color -r '' @ x @ '' '' @ y \<noteq>
      ''git diff-tree --no-color -r -c '' @ y"
    by simp
  from a b show ?thesis by simp
qed

text \<open>
  C1. When \<open>x\<close> is the only parent of \<open>y\<close> (the record of \<open>y\<close> has the one parent
  \<open>x\<close>), \<^verbatim>\<open>isParentOf(x, y)\<close> holds and \<^verbatim>\<open>isSameFiles(x, y)\<close> ends as
  \<^verbatim>\<open>isTreeModified(y)\<close> does, with the negated result, so it launches nothing of its
  own. When the file list of \<open>y\<close> is in the cache, the answer comes from the cached
  list and the state is as before: nothing is launched. In every case the commands
  launched are among the two forms of the file-list command of \<open>y\<close>
  (\<open>git diff-tree --no-color -r -c y\<close>, with and without \<open>-C\<close>), which \<^verbatim>\<open>getFiles\<close>
  runs for a list that is not cached; the two-tree diff of the general case of
  \<^verbatim>\<open>isSameFiles\<close>, \<open>git diff-tree --no-color -r x y\<close>, is not among them (for every
  \<open>x\<close> but the text \<open>-c\<close>, where the two commands are the same text).
\<close>

theorem isSameFiles_parent_child:
  assumes "\<not> nullSha E y" "revs g y = Some c" "parents c = [x]"
  shows "isParentOf E g x y \<and>
    isSameFiles E x y g = map_outcome Not (isTreeModified E y g) \<and>
    (\<forall>f. revsFiles g (sha c) = Some f \<longrightarrow>
       isSameFiles E x y g =
         Ret (\<not> list_ex (\<lambda>i. \<not> statusCmp E f (int i) MODIFIED) [0..<length (paths f)]) g) \<and>
    (\<forall>b g'. isSameFiles E x y g = Ret b g' \<longrightarrow>
       g' = g \<or>
       (\<exists>extra. invocations g' = invocations (snd (processEvents E g)) @ extra \<and>
          set (map command extra) \<subseteq>
            {replace_str ''git diff-tree'' ''git diff-tree -C'' (''git diff-tree --no-color -r -c '' @ y),
             ''git diff-tree --no-color -r -c '' @ y} \<and>
          (x \<noteq> ''-c'' \<longrightarrow>
             ''git diff-tree --no-color -r '' @ x @ '' '' @ y \<notin> set (map command extra))))"
proof (intro conjI allI impI)
  from assms have r: "revLookup E g y = Some c" "length (parents c) = 1"
    by (simp_all add: revLookup_def)
  with assms show par: "isParentOf E g x y"
    by (simp add: isParentOf_def)
  then show eq: "isSameFiles E x y g = map_outcome Not (isTreeModified E y g)"
    by (simp add: isSameFiles_def)
  {
    fix f assume "revsFiles g (sha c) = Some f"
    then have "getFiles E y [] False [] g = Ret (Some f) g"
      using getFiles_cached [OF r] by simp
    then show "isSameFiles E x y g =
        Ret (\<not> list_ex (\<lambda>i. \<not> statusCmp E f (int i) MODIFIED) [0..<length (paths f)]) g"
      by (simp add: eq isTreeModified_def)
  }
  {
    fix b g' assume "isSameFiles E x y g = Ret b g'"
    then obtain fo where "getFiles E y [] False [] g = Ret fo g'"
      by (auto simp: eq isTreeModified_def split: outcome.splits option.splits)
    then have "g' = g \<or>
       (\<exists>extra. invocations g' = invocations (snd (processEvents E g)) @ extra \<and>
          set (map command extra) \<subseteq>
            {replace_str ''git diff-tree'' ''git diff-tree -C'' (''git diff-tree --no-color -r -c '' @ y),
             ''git diff-tree --no-color -r -c '' @ y})"
      using getFiles_default_launches [OF r] by blast
    then show "g' = g \<or>
       (\<exists>extra. invocations g' = invocations (snd (processEvents E g)) @ extra \<and>
          set (map command extra) \<subseteq>
            {replace_str ''git diff-tree'' ''git diff-tree -C'' (''git diff-tree --no-color -r -c '' @ y),
             ''git diff-tree --no-color -r -c '' @ y} \<and>
          (x \<noteq> ''-c'' \<longrightarrow>
             ''git diff-tree --no-color -r '' @ x @ '' '' @ y \<notin> set (map command extra)))"
      using two_tree_diff_differs [of x y] by blast
  }
qed

theorem isSameFiles_parent_child_witness:
  "\<not> nullSha (exampleEnv workingTool) ''b'' \<and>
   revs exampleGit ''b'' = Some (exampleRev ''b'' [''a''] 1 [0]) \<and>
   parents (exampleRev ''b'' [''a''] 1 [0]) = [''a''] \<and>
   isParentOf (exampleEnv workingTool) exampleGit ''a'' ''b'' \<and>
   isTreeModified (exampleEnv workingTool) ''b'' exampleGit = Ret False exampleGit \<and>
   isSameFiles (exampleEnv workingTool) ''a'' ''b'' exampleGit = Ret True exampleGit \<and>
   (case isSameFiles (exampleEnv workingTool) ''b'' ''c'' exampleGit of
      Ret b g' \<Rightarrow> b \<and> map command (invocations g') = [''git diff-tree -C --no-color -r -c c'']
    | Thrown i g' \<Rightarrow> False
    | Crash \<Rightarrow> False) \<and>
   (case isSameFiles (exampleEnv workingTool) ''a'' ''c'' exampleGit of
      Ret b g' \<Rightarrow> map command (invocations g') = [''git diff-tree --no-color -r a c'']
    | Thrown i g' \<Rightarrow> False
    | Crash \<Rightarrow> False)"
proof -
  have h: "\<not> nullSha (exampleEnv workingTool) ''b''"
    "revs exampleGit ''b'' = Some (exampleRev ''b'' [''a''] 1 [0])"
    "parents (exampleRev ''b'' [''a''] 1 [0]) = [''a'']"
    by (simp_all add: exampleEnv_def exampleGit_def exampleRev_def)
  have t: "isTreeModified (exampleEnv workingTool) ''b'' exampleGit = Ret False exampleGit"
    by (simp add: isTreeModified_def getFiles_def revLookup_def exampleEnv_def exampleGit_def
        exampleRev_def exampleRevFile_def)
  have u: "case isSameFiles (exampleEnv workingTool) ''b'' ''c'' exampleGit of
      Ret b g' \<Rightarrow> b \<and> map command (invocations g') = [''git diff-tree -C --no-color -r -c c'']
    | Thrown i g' \<Rightarrow> False
    | Crash \<Rightarrow> False"
    by (simp add: isSameFiles_def isParentOf_def isTreeModified_def getFiles_def revLookup_def
        runDiffTreeWithRenameDetection_def run_def insertNewFiles_def replace_str_def
        exampleEnv_def exampleGit_def exampleRev_def exampleRevFile_def workingTool_def Let_def)
  have v: "case isSameFiles (exampleEnv workingTool) ''a'' ''c'' exampleGit of
      Ret b g' \<Rightarrow> map command (invocations g') = [''git diff-tree --no-color -r a c'']
    | Thrown i g' \<Rightarrow> False
    | Crash \<Rightarrow> False"
    by (simp add: isSameFiles_def isParentOf_def revLookup_def run_def
        exampleEnv_def exampleGit_def exampleRev_def workingTool_def Let_def)
  show ?thesis
    using h t u v isSameFiles_parent_child [OF h] by simp
qed

section \<open>The diff of two arbitrary trees in the cache\<close>

lemma getFiles_custom:
  assumes "diffToSha \<noteq> []" "sha' \<noteq> ZERO_SHA E"
  shows "case getFiles E sha' diffToSha allFiles path g of
      Ret (Some rf) g' \<Rightarrow> revsFiles g' = (revsFiles (snd (processEvents E g)))(CUSTOM_SHA E \<mapsto> rf)
    | Ret None g' \<Rightarrow> g' = g \<or> revsFiles g' = revsFiles (snd (processEvents E g))
    | Thrown i g' \<Rightarrow> g' = snd (processEvents E g)
    | Crash \<Rightarrow> False"
  using assms
  by (simp add: getFiles_def Let_def insertNewFiles_revsFiles runDiffTree_revsFiles
      split: option.splits prod.splits)

lemma getFilesRequests_custom:
  assumes ev: "\<forall>s. revsFiles (snd (processEvents E s)) = revsFiles s"
    and reqs: "list_all (\<lambda>(sha', diffToSha, allFiles, path). diffToSha \<noteq> [] \<and> sha' \<noteq> ZERO_SHA E) reqs"
  shows "\<exists>g'. getFilesRequests E reqs g = Some g' \<and>
           (\<forall>k. k \<noteq> CUSTOM_SHA E \<longrightarrow> revsFiles g' k = revsFiles g k)"
  using reqs
proof (induction reqs arbitrary: g)
  case Nil
  then show ?case by simp
next
  case (Cons q reqs)
  obtain sha' diffToSha allFiles path where q: "q = (sha', diffToSha, allFiles, path)"
    by (cases q) auto
  from Cons.prems q have pre: "diffToSha \<noteq> []" "sha' \<noteq> ZERO_SHA E"
    and rest: "list_all (\<lambda>(sha', diffToSha, allFiles, path). diffToSha \<noteq> [] \<and> sha' \<noteq> ZERO_SHA E) reqs"
    by auto
  note step = getFiles_custom [OF pre, where allFiles = allFiles and path = path and g = g]
  show ?case
  proof (cases "getFiles E sha' diffToSha allFiles path g")
    case (Ret fo g1)
    with step ev have keep: "\<forall>k. k \<noteq> CUSTOM_SHA E \<longrightarrow> revsFiles g1 k = revsFiles g k"
      by (cases fo) auto
    from Cons.IH [OF rest, of g1] keep Ret q show ?thesis by auto
  next
    case (Thrown i g1)
    with step ev have keep: "\<forall>k. k \<noteq> CUSTOM_SHA E \<longrightarrow> revsFiles g1 k = revsFiles g k"
      by auto
    from Cons.IH [OF rest, of g1] keep Thrown q show ?thesis by auto
  next
    case Crash
    with step show ?thesis by simp
  qed
qed

text \<open>
  C4. A \<^verbatim>\<open>getFiles\<close> request with a diff target, for an identifier other than the
  working directory's, which returns a file list has put exactly that list under the
  one key \<^verbatim>\<open>CUSTOM_SHA\<close>, in place of what was there; a request that returns the null
  result has put nothing into the cache. The cache is compared with the one the
  pending events left. So after any sequence of such requests every entry under
  another key is as it was before the sequence (when the handlers of pending events
  leave the cache alone): the results of such requests take up one entry.
\<close>

theorem getFiles_custom_key_only:
  "(diffToSha \<noteq> [] \<and> sha' \<noteq> ZERO_SHA E \<longrightarrow>
      (case getFiles E sha' diffToSha allFiles path g of
         Ret (Some rf) g' \<Rightarrow>
           revsFiles g' = (revsFiles (snd (processEvents E g)))(CUSTOM_SHA E \<mapsto> rf)
       | Ret None g' \<Rightarrow> g' = g \<or> revsFiles g' = revsFiles (snd (processEvents E g))
       | Thrown i g' \<Rightarrow> g' = snd (processEvents E g)
       | Crash \<Rightarrow> False)) \<and>
   ((\<forall>s. revsFiles (snd (processEvents E s)) = revsFiles s) \<and>
    list_all (\<lambda>(sha', diffToSha, allFiles, path). diffToSha \<noteq> [] \<and> sha' \<noteq> ZERO_SHA E) reqs \<longrightarrow>
      (\<exists>g'. getFilesRequests E reqs g0 = Some g' \<and>
         (\<forall>k. k \<noteq> CUSTOM_SHA E \<longrightarrow> revsFiles g' k = revsFiles g0 k)))"
  using getFiles_custom [where diffToSha = diffToSha and sha' = sha' and E = E
      and allFiles = allFiles and path = path and g = g]
    getFilesRequests_custom [of E reqs g0]
  by blast

theorem getFiles_custom_key_only_witness:
  "(\<forall>s. revsFiles (snd (processEvents (exampleEnv echoTool) s)) = revsFiles s) \<and>
   list_all (\<lambda>(sha', diffToSha, allFiles, path). diffToSha \<noteq> [] \<and> sha' \<noteq> ZERO_SHA (exampleEnv echoTool))
     [(''c'', ''a'', False, []), (''b'', ''c'', True, ''src'')] \<and>
   map_option (\<lambda>g. (revsFiles g ''*CUSTOM*'', revsFiles g ''c'', revsFiles g ''b''))
     (getFilesRequests (exampleEnv echoTool)
        [(''c'', ''a'', False, []), (''b'', ''c'', True, ''src'')] exampleGit) =
     Some (Some (exampleRevFile\<lparr>extStatus := [''git diff-tree -C --no-color -r -m c b src'']\<rparr>),
           None, Some exampleRevFile)"
  using getFiles_custom_key_only [where diffToSha = "''a''" and sha' = "''c''"
      and E = "exampleEnv echoTool" and allFiles = False and path = "[]" and g = exampleGit
      and reqs = "[(''c'', ''a'', False, []), (''b'', ''c'', True, ''src'')]" and ?g0.0 = exampleGit]
  by (simp add: getFiles_def revLookup_def runDiffTreeWithRenameDetection_def run_def
      insertNewFiles_def replace_str_def exampleEnv_def exampleGit_def exampleRev_def
      echoTool_def Let_def)

section \<open>Finding a file in a file list, and the name of a renamed file\<close>

lemma findFileFrom_found:
  "findFileFrom fnames dnames nm dr ps k = Some i \<Longrightarrow> 0 \<le> k \<Longrightarrow> 0 \<le> i \<Longrightarrow>
   k \<le> i \<and> i < k + int (length ps) \<and>
   at fnames (snd (ps ! nat (i - k))) = Some nm \<and> at dnames (fst (ps ! nat (i - k))) = Some dr"
proof (induction fnames dnames nm dr ps k rule: findFileFrom.induct)
  case (1 fnames dnames nm dr i)
  then show ?case by simp
next
  case (2 fnames dnames nm dr d n rest k)
  show ?case
  proof (cases "at fnames n = Some nm \<and> at dnames d = Some dr")
    case True
    with "2.prems" show ?thesis by simp
  next
    case False
    with "2.prems" have rec: "findFileFrom fnames dnames nm dr rest (k + 1) = Some i"
      by (auto split: option.splits if_splits)
    from False "2.prems" rec "2.IH" have
      "k + 1 \<le> i \<and> i < k + 1 + int (length rest) \<and>
       at fnames (snd (rest ! nat (i - (k + 1)))) = Some nm \<and>
       at dnames (fst (rest ! nat (i - (k + 1)))) = Some dr"
      by (auto split: option.splits if_splits)
    moreover from this have "nat (i - k) = Suc (nat (i - (k + 1)))"
      by linarith
    ultimately show ?thesis by simp
  qed
qed

lemma findFileIndex_found:
  assumes "findFileIndex g rf name = Some i" "0 \<le> i"
  shows "\<exists>d n dr nm. at (paths rf) i = Some (d, n) \<and> at (dirNamesVec g) d = Some dr \<and>
           at (fileNamesVec g) n = Some nm \<and> name = dr @ nm"
proof -
  from assms have ne: "name \<noteq> []"
    by (auto simp: findFileIndex_def split: if_splits)
  let ?idx = "lastIndexOf CHR ''/'' name + 1"
  let ?dr = "take (nat ?idx) name" and ?nm = "drop (nat ?idx) name"
  from assms ne have "findFileFrom (fileNamesVec g) (dirNamesVec g) ?nm ?dr (paths rf) 0 = Some i"
    by (simp add: findFileIndex_def Let_def)
  from findFileFrom_found [OF this] assms(2)
  have f: "i < int (length (paths rf))"
    "at (fileNamesVec g) (snd (paths rf ! nat i)) = Some ?nm"
    "at (dirNamesVec g) (fst (paths rf ! nat i)) = Some ?dr"
    by auto
  then have "at (paths rf) i = Some (fst (paths rf ! nat i), snd (paths rf ! nat i))"
    using assms(2) by (simp add: at_def)
  with f show ?thesis
    by (metis append_take_drop_id)
qed

lemma findFileIndex_injective:
  assumes "findFileIndex g rf n1 = Some i" "findFileIndex g rf n2 = Some i" "0 \<le> i"
  shows "n1 = n2"
  using findFileIndex_found [OF assms(1,3)] findFileIndex_found [OF assms(2,3)]
  by auto

lemma startsWith_hd: "startsWith (c # cs) sep \<Longrightarrow> sep \<noteq> [] \<Longrightarrow> c = hd sep"
  by (cases sep) auto

lemma splitFrom_skip:
  "splitFrom (length xs) sep cur (xs @ rest) = splitFrom 0 sep cur rest"
  by (induction xs) auto

lemma splitFrom_no_match:
  "hd sep \<notin> set xs \<Longrightarrow> splitFrom 0 sep cur (xs @ rest) = splitFrom 0 sep (cur @ xs) rest"
proof (induction xs arbitrary: cur)
  case Nil
  then show ?case by simp
next
  case (Cons c cs)
  then have "\<not> (sep \<noteq> [] \<and> startsWith (c # cs @ rest) sep)"
    using startsWith_hd [of c "cs @ rest" sep] by auto
  with Cons show ?case by auto
qed

lemma splitFrom_match:
  assumes "sep \<noteq> []"
  shows "splitFrom 0 sep cur (sep @ rest) = cur # splitFrom 0 sep [] rest"
proof -
  from assms obtain c cs where sep: "sep = c # cs"
    by (cases sep) auto
  have "splitFrom 0 sep cur (sep @ rest) = cur # splitFrom (length cs) sep [] (cs @ rest)"
    using startsWith_append [of sep rest] by (simp add: sep)
  then show ?thesis
    by (simp add: splitFrom_skip)
qed

lemma contains_str_append: "contains_str (xs @ sub @ rest) sub"
proof (induction xs)
  case Nil
  show ?case
    using startsWith_append [of sub rest] by (cases "sub @ rest") auto
next
  case (Cons c cs)
  then show ?case by simp
qed

lemma split_arrow:
  assumes "CHR '' '' \<notin> set orig" "CHR '' '' \<notin> set rest1"
  shows "split_str '' --> '' (orig @ '' --> '' @ rest1 @ rest2) =
           orig # splitFrom 0 '' --> '' rest1 rest2"
  using assms splitFrom_no_match [of "'' --> ''" orig "[]" "'' --> '' @ rest1 @ rest2"]
    splitFrom_match [of "'' --> ''" orig "rest1 @ rest2"]
    splitFrom_no_match [of "'' --> ''" rest1 "[]" rest2]
  by (simp add: split_str_def)

lemma split_paren:
  assumes "CHR '' '' \<notin> set dest"
  shows "split_str '' ('' (dest @ '' ('' @ rest) = dest # splitFrom 0 '' ('' [] rest"
  using assms splitFrom_no_match [of "'' (''" dest "[]" "'' ('' @ rest"]
    splitFrom_match [of "'' (''" dest rest]
  by (simp add: split_str_def)

lemma split_paren_none:
  assumes "CHR '' '' \<notin> set dest"
  shows "split_str '' ('' dest = [dest]"
  using assms splitFrom_no_match [of "'' (''" dest "[]" "[]"]
  by (simp add: split_str_def)

lemma removeExtraFileInfo_plain:
  assumes "CHR '' '' \<notin> set orig" "CHR '' '' \<notin> set dest"
  shows "removeExtraFileInfo (orig @ '' --> '' @ dest) = dest"
proof -
  have c: "contains_str (orig @ '' --> '' @ dest) '' --> ''"
    using contains_str_append [of orig "'' --> ''" dest] by simp
  have s: "split_str '' --> '' (orig @ '' --> '' @ dest) = [orig, dest]"
    using split_arrow [OF assms, of "[]"] by simp
  have "section_str '' --> '' 1 1 (orig @ '' --> '' @ dest) = dest"
    unfolding section_str_def s by simp
  moreover have "section_str '' ('' 0 0 dest = dest"
    unfolding section_str_def split_paren_none [OF assms(2)] by simp
  ultimately show ?thesis
    unfolding removeExtraFileInfo_def using c by simp
qed

lemma removeExtraFileInfo_percent:
  assumes "CHR '' '' \<notin> set orig" "CHR '' '' \<notin> set dest" "CHR '' '' \<notin> set ty"
  shows "removeExtraFileInfo (orig @ '' --> '' @ dest @ '' ('' @ ty @ ''%)'') = dest"
proof -
  let ?tail = "'' ('' @ ty @ ''%)''"
  have c: "contains_str (orig @ '' --> '' @ dest @ ?tail) '' --> ''"
    using contains_str_append [of orig "'' --> ''" "dest @ ?tail"] by simp
  have "splitFrom 0 '' --> '' dest ?tail = splitFrom 0 '' --> '' (dest @ '' ('') (ty @ ''%)'')"
    by simp
  also have "\<dots> = [dest @ ?tail]"
    using assms(3) splitFrom_no_match [of "'' --> ''" "ty @ ''%)''" "dest @ '' (''" "[]"] by simp
  finally have s: "split_str '' --> '' (orig @ '' --> '' @ dest @ ?tail) = [orig, dest @ ?tail]"
    using split_arrow [OF assms(1,2), of ?tail] by simp
  have "section_str '' --> '' 1 1 (orig @ '' --> '' @ dest @ ?tail) = dest @ ?tail"
    unfolding section_str_def s by simp
  moreover have "section_str '' ('' 0 0 (dest @ ?tail) = dest"
    unfolding section_str_def split_paren [OF assms(2)] by simp
  ultimately show ?thesis
    unfolding removeExtraFileInfo_def using c by simp
qed

lemma findFileFrom_none:
  "list_all (\<lambda>e. at dnames (fst e) \<noteq> None \<and> at fnames (snd e) \<noteq> None) ps \<Longrightarrow>
   list_all (\<lambda>e. \<not> (at fnames (snd e) = Some nm \<and> at dnames (fst e) = Some dr)) ps \<Longrightarrow>
   findFileFrom fnames dnames nm dr ps k = Some (-1)"
  by (induction ps arbitrary: k) (auto split: option.splits)

lemma findFileFrom_first:
  "list_all (\<lambda>e. at dnames (fst e) \<noteq> None \<and> at fnames (snd e) \<noteq> None) pre \<Longrightarrow>
   list_all (\<lambda>e. \<not> (at fnames (snd e) = Some nm \<and> at dnames (fst e) = Some dr)) pre \<Longrightarrow>
   at fnames (snd x) = Some nm \<Longrightarrow> at dnames (fst x) = Some dr \<Longrightarrow>
   findFileFrom fnames dnames nm dr (pre @ x # post) k = Some (k + int (length pre))"
proof (induction pre arbitrary: k)
  case Nil
  then show ?case by (cases x) simp
next
  case (Cons e pre)
  then show ?case by (cases e) (auto split: option.splits)
qed

lemma lastIndexOf_absent: "ch \<notin> set s \<Longrightarrow> lastIndexOf ch s = -1"
  by (induction s) (auto simp: Let_def)

lemma lastIndexOf_lower: "- 1 \<le> lastIndexOf ch s"
  by (induction s) (auto simp: Let_def)

lemma lastIndexOf_append:
  "lastIndexOf ch (xs @ ys) =
     (if 0 \<le> lastIndexOf ch ys then int (length xs) + lastIndexOf ch ys else lastIndexOf ch xs)"
proof (induction xs)
  case Nil
  show ?case
    using lastIndexOf_lower [of ch ys] lastIndexOf_lower [of ch "[]"] by auto
next
  case (Cons x xs)
  then show ?case
    by (auto simp: Let_def)
qed

lemma lastIndexOf_dir:
  assumes "CHR ''/'' \<notin> set nm" "dr = [] \<or> last dr = CHR ''/''"
  shows "lastIndexOf CHR ''/'' (dr @ nm) + 1 = int (length dr)"
proof (cases dr rule: rev_cases)
  case Nil
  with assms(1) show ?thesis by (simp add: lastIndexOf_absent)
next
  case (snoc pre c)
  with assms(2) have c: "c = CHR ''/''"
    by simp
  have "lastIndexOf CHR ''/'' (CHR ''/'' # nm) = 0"
    using assms(1) by (simp add: lastIndexOf_absent Let_def)
  then have "lastIndexOf CHR ''/'' (pre @ (CHR ''/'' # nm)) = int (length pre)"
    by (simp only: lastIndexOf_append) simp
  then show ?thesis
    by (simp add: snoc c)
qed

lemma storedUnder_name:
  assumes "at (dirNamesVec g) d = Some dr" "at (fileNamesVec g) n = Some nm"
    "CHR ''/'' \<notin> set nm" "dr = [] \<or> last dr = CHR ''/''"
  shows "storedUnder g name (d, n) \<longleftrightarrow> name = dr @ nm"
proof
  assume "storedUnder g name (d, n)"
  with assms(1,2) have "take (nat (lastIndexOf CHR ''/'' name + 1)) name = dr"
    "drop (nat (lastIndexOf CHR ''/'' name + 1)) name = nm"
    by (simp_all add: storedUnder_def Let_def)
  then have "take (nat (lastIndexOf CHR ''/'' name + 1)) name @
      drop (nat (lastIndexOf CHR ''/'' name + 1)) name = dr @ nm"
    by (rule arg_cong2)
  then show "name = dr @ nm"
    by (simp only: append_take_drop_id)
next
  assume name: "name = dr @ nm"
  have "nat (lastIndexOf CHR ''/'' name + 1) = length dr"
    unfolding name lastIndexOf_dir [OF assms(3,4)] by simp
  then show "storedUnder g name (d, n)"
    unfolding storedUnder_def Let_def using assms(1,2) by (simp add: name)
qed

lemma findFileIndex_complete:
  assumes "tablesCover g rf" "name \<noteq> []"
  shows "\<exists>j. findFileIndex g rf name = Some j \<and>
          (if list_ex (storedUnder g name) (paths rf)
           then 0 \<le> j \<and> j < int (length (paths rf)) \<and> storedUnder g name (paths rf ! nat j) \<and>
                list_all (\<lambda>e. \<not> storedUnder g name e) (take (nat j) (paths rf))
           else j = -1)"
proof -
  let ?idx = "lastIndexOf CHR ''/'' name + 1"
  let ?dr = "take (nat ?idx) name" and ?nm = "drop (nat ?idx) name"
  have eq: "findFileIndex g rf name =
      findFileFrom (fileNamesVec g) (dirNamesVec g) ?nm ?dr (paths rf) 0"
    using assms(2) by (simp add: findFileIndex_def Let_def)
  have su: "storedUnder g name e \<longleftrightarrow>
      at (fileNamesVec g) (snd e) = Some ?nm \<and> at (dirNamesVec g) (fst e) = Some ?dr" for e
    by (simp add: storedUnder_def Let_def)
  show ?thesis
  proof (cases "list_ex (storedUnder g name) (paths rf)")
    case False
    then have "list_all (\<lambda>e. \<not> (at (fileNamesVec g) (snd e) = Some ?nm \<and>
        at (dirNamesVec g) (fst e) = Some ?dr)) (paths rf)"
      by (simp add: list_ex_iff list_all_iff su)
    with assms(1) have "findFileFrom (fileNamesVec g) (dirNamesVec g) ?nm ?dr (paths rf) 0 = Some (-1)"
      unfolding tablesCover_def by (rule findFileFrom_none)
    with False eq show ?thesis by simp
  next
    case True
    then have "\<exists>x\<in>set (paths rf). storedUnder g name x"
      by (simp add: list_ex_iff)
    from split_list_first_prop [OF this]
    obtain pre x post where split: "paths rf = pre @ x # post"
      and x: "storedUnder g name x" and pre: "\<forall>y\<in>set pre. \<not> storedUnder g name y"
      by auto
    from assms(1) split have cover: "list_all (\<lambda>e. at (dirNamesVec g) (fst e) \<noteq> None \<and>
        at (fileNamesVec g) (snd e) \<noteq> None) pre"
      by (simp add: tablesCover_def)
    from pre have nomatch: "list_all (\<lambda>e. \<not> (at (fileNamesVec g) (snd e) = Some ?nm \<and>
        at (dirNamesVec g) (fst e) = Some ?dr)) pre"
      by (simp add: list_all_iff su)
    from x have "at (fileNamesVec g) (snd x) = Some ?nm" "at (dirNamesVec g) (fst x) = Some ?dr"
      by (simp_all add: su)
    from findFileFrom_first [OF cover nomatch this, of post 0]
    have "findFileIndex g rf name = Some (int (length pre))"
      by (simp add: eq split)
    moreover have "paths rf ! length pre = x" "take (length pre) (paths rf) = pre"
      by (simp_all add: split)
    ultimately show ?thesis
      using True x pre by (simp add: split list_all_iff)
  qed
qed

text \<open>
  C6, as stated, fails: a query by the old name and a query by the new name of a
  rename do not resolve to the same entry. With an entry for each name the two
  queries find two entries; with an entry for the new name only, the query by the old
  name finds none. (No other form helps: an entry has one directory and one name.)
\<close>

theorem findFileIndex_rename_counterexample:
  "findFileIndex renameGit renameFile ''old.txt'' = Some 1 \<and>
   findFileIndex renameGit renameFile ''new.txt'' = Some 0 \<and>
   findFileIndex renameGit renameFile ''old.txt'' \<noteq> findFileIndex renameGit renameFile ''new.txt'' \<and>
   findFileIndex renameGit renameFileOneEntry ''old.txt'' = Some (-1) \<and>
   findFileIndex renameGit renameFileOneEntry ''new.txt'' = Some 0"
  by (simp add: findFileIndex_def renameGit_def renameFile_def renameFileOneEntry_def at_def Let_def)

text \<open>
  C6, amended. \<^verbatim>\<open>findFileIndex\<close> resolves a name to the first entry that is stored
  under it: the entry whose file name and directory, as the name tables give them, are
  the part of the query after its last slash and the part up to it; it answers -1
  when the list has no such entry (every entry indexing within the tables), and for
  the empty query. For a file name without a slash and a directory that is empty or
  ends with one, an entry is stored under exactly the name that the two make up. So
  two queries that resolve to the same entry are queries by the same name, and a
  rename is found under each of its names exactly where the list has an entry of that
  name. \<^verbatim>\<open>removeExtraFileInfo\<close> applied to the formatted rename, \<open>orig --> dest\<close>
  with or without the similarity in brackets after it, yields \<open>dest\<close> (for names
  without blanks).
\<close>

theorem findFileIndex_entry_has_one_name:
  "(findFileIndex g rf n1 = Some i \<and> findFileIndex g rf n2 = Some i \<and> 0 \<le> i \<longrightarrow> n1 = n2) \<and>
   (findFileIndex g rf name = Some j \<and> 0 \<le> j \<longrightarrow>
      (\<exists>d n dr nm. at (paths rf) j = Some (d, n) \<and> at (dirNamesVec g) d = Some dr \<and>
         at (fileNamesVec g) n = Some nm \<and> name = dr @ nm)) \<and>
   (tablesCover g rf \<and> query \<noteq> [] \<longrightarrow>
      (\<exists>k. findFileIndex g rf query = Some k \<and>
           (if list_ex (storedUnder g query) (paths rf)
            then 0 \<le> k \<and> k < int (length (paths rf)) \<and>
                 storedUnder g query (paths rf ! nat k) \<and>
                 list_all (\<lambda>e. \<not> storedUnder g query e) (take (nat k) (paths rf))
            else k = -1))) \<and>
   findFileIndex g rf [] = Some (-1) \<and>
   (at (dirNamesVec g) d' = Some dr' \<and> at (fileNamesVec g) n' = Some nm' \<and>
    CHR ''/'' \<notin> set nm' \<and> (dr' = [] \<or> last dr' = CHR ''/'') \<longrightarrow>
      storedUnder g q (d', n') = (q = dr' @ nm')) \<and>
   (CHR '' '' \<notin> set orig \<and> CHR '' '' \<notin> set dest \<and> CHR '' '' \<notin> set ty \<longrightarrow>
      removeExtraFileInfo (orig @ '' --> '' @ dest) = dest \<and>
      removeExtraFileInfo (orig @ '' --> '' @ dest @ '' ('' @ ty @ ''%)'') = dest)"
proof (intro conjI impI)
  show "n1 = n2"
    if "findFileIndex g rf n1 = Some i \<and> findFileIndex g rf n2 = Some i \<and> 0 \<le> i"
    using that findFileIndex_injective [of g rf n1 i n2] by simp
  show "\<exists>d n dr nm. at (paths rf) j = Some (d, n) \<and> at (dirNamesVec g) d = Some dr \<and>
         at (fileNamesVec g) n = Some nm \<and> name = dr @ nm"
    if "findFileIndex g rf name = Some j \<and> 0 \<le> j"
    using that findFileIndex_found [of g rf name j] by simp
  show "\<exists>k. findFileIndex g rf query = Some k \<and>
           (if list_ex (storedUnder g query) (paths rf)
            then 0 \<le> k \<and> k < int (length (paths rf)) \<and>
                 storedUnder g query (paths rf ! nat k) \<and>
                 list_all (\<lambda>e. \<not> storedUnder g query e) (take (nat k) (paths rf))
            else k = -1)"
    if "tablesCover g rf \<and> query \<noteq> []"
    using that findFileIndex_complete [of g rf query] by simp
  show "findFileIndex g rf [] = Some (-1)"
    by (simp add: findFileIndex_def)
  show "storedUnder g q (d', n') = (q = dr' @ nm')"
    if "at (dirNamesVec g) d' = Some dr' \<and> at (fileNamesVec g) n' = Some nm' \<and>
        CHR ''/'' \<notin> set nm' \<and> (dr' = [] \<or> last dr' = CHR ''/'')"
    using that storedUnder_name [of g d' dr' n' nm' q] by simp
  show "removeExtraFileInfo (orig @ '' --> '' @ dest) = dest"
    if "CHR '' '' \<notin> set orig \<and> CHR '' '' \<notin> set dest \<and> CHR '' '' \<notin> set ty"
    using that removeExtraFileInfo_plain [of orig dest] by simp
  show "removeExtraFileInfo (orig @ '' --> '' @ dest @ '' ('' @ ty @ ''%)'') = dest"
    if "CHR '' '' \<notin> set orig \<and> CHR '' '' \<notin> set dest \<and> CHR '' '' \<notin> set ty"
    using that removeExtraFileInfo_percent [of orig dest ty] by simp
qed

theorem findFileIndex_entry_has_one_name_witness:
  "findFileIndex renameGit renameFile ''new.txt'' = Some 0 \<and>
   at (paths renameFile) 0 = Some (0, 0) \<and> at (dirNamesVec renameGit) 0 = Some [] \<and>
   at (fileNamesVec renameGit) 0 = Some ''new.txt'' \<and>
   tablesCover renameGit renameFile \<and>
   list_ex (storedUnder renameGit ''old.txt'') (paths renameFile) \<and>
   findFileIndex renameGit renameFile ''old.txt'' = Some 1 \<and>
   storedUnder renameGit ''old.txt'' (paths renameFile ! 1) \<and>
   \<not> storedUnder renameGit ''old.txt'' (paths renameFile ! 0) \<and>
   at (fileNamesVec renameGit) 1 = Some ''old.txt'' \<and>
   storedUnder renameGit ''old.txt'' (0, 1) \<and>
   removeExtraFileInfo ''old.txt --> new.txt'' = ''new.txt'' \<and>
   removeExtraFileInfo ''old.txt --> new.txt (R100%)'' = ''new.txt''"
proof -
  have h: "findFileIndex renameGit renameFile ''new.txt'' = Some 0"
    "findFileIndex renameGit renameFile ''old.txt'' = Some 1"
    by (simp_all add: findFileIndex_def renameGit_def renameFile_def at_def Let_def)
  have t: "at (paths renameFile) 0 = Some (0, 0)" "at (dirNamesVec renameGit) 0 = Some []"
    "at (fileNamesVec renameGit) 0 = Some ''new.txt''"
    "at (fileNamesVec renameGit) 1 = Some ''old.txt''"
    by (simp_all add: renameGit_def renameFile_def at_def)
  have c: "tablesCover renameGit renameFile"
    by (simp add: tablesCover_def renameGit_def renameFile_def at_def)
  have s: "storedUnder renameGit ''old.txt'' (paths renameFile ! 1)"
    "\<not> storedUnder renameGit ''old.txt'' (paths renameFile ! 0)"
    by (simp_all add: storedUnder_def renameGit_def renameFile_def at_def Let_def)
  then have e: "list_ex (storedUnder renameGit ''old.txt'') (paths renameFile)"
    by (simp add: renameFile_def)
  show ?thesis
    using h t c s e findFileIndex_entry_has_one_name [where g = renameGit and rf = renameFile
        and ?n1.0 = "''new.txt''" and ?n2.0 = "''new.txt''" and i = 0 and name = "''new.txt''"
        and j = 0 and query = "''old.txt''" and d' = 0 and dr' = "[]" and n' = 1
        and nm' = "''old.txt''" and q = "''old.txt''"
        and orig = "''old.txt''" and dest = "''new.txt''" and ty = "''R100''"]
    by simp
qed

section \<open>Error reporting after a probe\<close>

lemma bindO_Ret: "bindO m f = Ret b g' \<longleftrightarrow> (\<exists>a g1. m = Ret a g1 \<and> f a g1 = Ret b g')"
  by (cases m) (auto simp: bindO_def)

lemma run_flag: "errorReportingEnabled (snd (run E c g)) = errorReportingEnabled g"
  by (simp add: run_def Let_def)

lemma guardedRunFails_flag:
  "errorReportingEnabled (snd (guardedRunFails c E cmd g)) = errorReportingEnabled g"
  by (simp add: guardedRunFails_def Let_def run_flag)

lemma quietRun_flag: "errorReportingEnabled (quietRun E c g)"
  by (simp add: quietRun_def)

lemma writeToFile_flag:
  "errorReportingEnabled (snd (writeToFile E p d g)) = errorReportingEnabled g"
  by (simp add: writeToFile_def)

lemma dirRemove_flag: "errorReportingEnabled (dirRemove d f g) = errorReportingEnabled g"
  by (simp add: dirRemove_def)

lemma getFiles_workdir:
  "getFiles E (ZERO_SHA E) [] False [] g = Ret fo g' \<Longrightarrow> g' = g"
  by (auto simp: getFiles_def split: option.splits if_splits)

lemma getOtherFiles_state: "getOtherFiles E sel oi g = Ret xs g' \<Longrightarrow> g' = g"
  by (auto simp: getOtherFiles_def split: outcome.splits option.splits dest: getFiles_workdir)

lemma indexCommands_flag:
  "errorReportingEnabled (snd (indexCommands E ta tr g)) = errorReportingEnabled g"
  by (simp add: indexCommands_def Let_def guardedRunFails_flag)

lemma updateIndex_flag:
  assumes "updateIndex E sel g = Ret b g'"
  shows "errorReportingEnabled g' = errorReportingEnabled g"
proof -
  from assms obtain fo g1 where gf: "getFiles E (ZERO_SHA E) [] False [] g = Ret fo g1"
    and rest: "(case splitSelection E g1 fo sel of None \<Rightarrow> Crash
       | Some parts \<Rightarrow> (let r = indexCommands E (fst parts) (snd parts) g1 in Ret (fst r) (snd r)))
       = Ret b g'"
    by (auto simp: updateIndex_def bindO_Ret)
  from gf have "g1 = g"
    by (rule getFiles_workdir)
  with rest show ?thesis
    by (auto simp: Let_def indexCommands_flag split: option.splits)
qed

lemma mkPatchFromWorkDir_flag:
  assumes "mkPatchFromWorkDir E msg pf fl g = Ret b g'"
  shows "errorReportingEnabled g' = errorReportingEnabled g"
proof -
  from assms obtain ok g1 where u: "updateIndex E fl g = Ret ok g1"
    and rest: "(if \<not> ok then Ret False g1
       else
         (let r = run E (''git diff -C HEAD -- '' @ quoteList E fl) g1 in
          if \<not> fst (fst r) then Ret False (snd r)
          else
            (let patch = ''Subject: '' @ msg @ [CHR 0x0A] @ ''---'' @ [CHR 0x0A] @ snd (fst r);
                 w = writeToFile E pf patch (snd r)
             in Ret (fst w) (snd w)))) = Ret b g'"
    by (auto simp: mkPatchFromWorkDir_def bindO_Ret)
  from rest have "errorReportingEnabled g' = errorReportingEnabled g1"
    by (auto simp: Let_def run_flag writeToFile_flag split: if_splits)
  with updateIndex_flag [OF u] show ?thesis by simp
qed

lemma stgImportOrFold_flag:
  "errorReportingEnabled (snd (stgImportOrFold E f msg pn pf g)) = errorReportingEnabled g"
  by (simp add: stgImportOrFold_def Let_def run_flag guardedRunFails_flag)

lemma failAndUnstash_flag:
  "errorReportingEnabled g \<Longrightarrow> errorReportingEnabled (failAndUnstash E p g)"
  by (simp add: failAndUnstash_def quietRun_flag)

lemma stgSteps_flag:
  assumes "errorReportingEnabled g" "stgSteps E msg pn f pf partial notSel g = Ret b g'"
  shows "errorReportingEnabled g'"
proof -
  let ?g4 = "if partial then quietRun E ''git stash'' g else g"
  let ?s = "stgImportOrFold E f msg pn pf ?g4"
  have g4: "errorReportingEnabled ?g4"
    using assms(1) by (simp add: quietRun_flag)
  then have s: "errorReportingEnabled (snd ?s)"
    by (simp only: stgImportOrFold_flag)
  from assms(2) have "g' = failAndUnstash E partial (snd ?s) \<or> g' = snd ?s \<or>
      g' = quietRun E ''git stash pop'' (snd ?s) \<or>
      updateIndex E notSel (quietRun E ''git stash pop'' (snd ?s)) = Ret b g'"
    by (auto simp: stgSteps_def Let_def split: if_splits)
  with s show ?thesis
    using failAndUnstash_flag [of "snd ?s" E partial]
      quietRun_flag [of E "''git stash pop''" "snd ?s"]
      updateIndex_flag [of E notSel "quietRun E ''git stash pop'' (snd ?s)" b g']
    by auto
qed

lemma stgBody_flag:
  assumes "errorReportingEnabled g" "stgBody E sel msg pn f pf g = Ret b g'"
  shows "errorReportingEnabled g'"
proof -
  from assms(2) obtain other g1 where
    o: "getOtherFiles E sel (\<not> optOnlyInIndex E) g = Ret other g1"
    and b2: "bindO (if other \<noteq> [] then getOtherFiles E sel (optOnlyInIndex E) g1 else Ret [] g1)
        (\<lambda>notSel g2. bindO (mkPatchFromWorkDir E msg pf sel g2) (\<lambda>made g3.
            if \<not> made then Ret False g3
            else stgSteps E msg pn f pf (other \<noteq> []) notSel g3)) = Ret b g'"
    by (auto simp: stgBody_def bindO_Ret Let_def)
  from o have g1: "g1 = g"
    by (rule getOtherFiles_state)
  from b2 obtain notSel g2 where
    n: "(if other \<noteq> [] then getOtherFiles E sel (optOnlyInIndex E) g1 else Ret [] g1) = Ret notSel g2"
    and b3: "bindO (mkPatchFromWorkDir E msg pf sel g2) (\<lambda>made g3.
            if \<not> made then Ret False g3
            else stgSteps E msg pn f pf (other \<noteq> []) notSel g3) = Ret b g'"
    by (auto simp: bindO_Ret)
  from n g1 have g2: "g2 = g"
    by (auto split: if_splits dest: getOtherFiles_state)
  from b3 obtain made g3 where m: "mkPatchFromWorkDir E msg pf sel g2 = Ret made g3"
    and b4: "(if \<not> made then Ret False g3
            else stgSteps E msg pn f pf (other \<noteq> []) notSel g3) = Ret b g'"
    by (auto simp: bindO_Ret)
  from m g2 assms(1) have g3: "errorReportingEnabled g3"
    by (simp add: mkPatchFromWorkDir_flag)
  from b4 show ?thesis
    using g3 stgSteps_flag [OF g3, of E msg pn f pf "other \<noteq> []" notSel b g']
    by (auto split: if_splits)
qed

lemma stgCommit_flag:
  assumes "errorReportingEnabled g" "stgCommit E sel msg pn f g = Ret b g'"
  shows "errorReportingEnabled g'"
proof -
  from assms(2) obtain ret g9 where
    "stgBody E sel msg pn f (gitDir g @ ''/qgit_tmp_patch.txt'') g = Ret ret g9"
    and "g' = dirRemove (workDir g9) (gitDir g @ ''/qgit_tmp_patch.txt'') g9"
    by (auto simp: stgCommit_def Let_def bindO_Ret)
  with stgBody_flag [OF assms(1)] show ?thesis
    by (simp add: dirRemove_flag)
qed

lemma checkEnvironment_flag:
  "errorReportingEnabled (checkEnvironment E g) =
     (fst (tool E (invocations g) (workDir g) ''git --version'') \<or> errorReportingEnabled g)"
  by (simp add: checkEnvironment_def run_def Let_def)

lemma checkEnvironment_launches:
  "map (\<lambda>i. (command i, reporting i)) (invocations (checkEnvironment E g)) =
     map (\<lambda>i. (command i, reporting i)) (invocations g) @
     (''git --version'', errorReportingEnabled g) #
     (if fst (tool E (invocations g) (workDir g) ''git --version'')
      then [(''source-highlight -V'', False)] else [])"
  by (simp add: checkEnvironment_def run_def Let_def)

lemma userInfo_launches:
  "map (\<lambda>i. (command i, reporting i)) (invocations (snd (userInfo E g))) =
     map (\<lambda>i. (command i, reporting i)) (invocations g) @
     [(''git config user.name'', False), (''git config user.email'', False),
      (''git config --global user.name'', False), (''git config --global user.email'', False)]"
  by (simp add: userInfo_def run_def Let_def)

lemma getRefSha_flag:
  "errorReportingEnabled (snd (getRefSha E n ty askGit g)) =
     ((findRef n ty (refsShaMap g) = None \<and> askGit) \<or> errorReportingEnabled g)"
  by (simp add: getRefSha_def run_def Let_def split: option.splits)

text \<open>
  C7. \<^verbatim>\<open>userInfo\<close> and \<^verbatim>\<open>runDiffTreeWithRenameDetection\<close> always leave error
  reporting enabled; \<^verbatim>\<open>checkEnvironment\<close> and \<^verbatim>\<open>getRefSha\<close> leave it enabled on the
  paths that switch it off and unchanged on the others; \<^verbatim>\<open>stgCommit\<close>, called with
  error reporting enabled, returns with it enabled. The launches that ran with error
  reporting off are the probe of \<open>source-highlight\<close> and the four reads of the
  configuration, nothing else that these two functions launch. A command that fails
  after such a call, with the flag enabled again, is surfaced.
\<close>

theorem errorReporting_restored:
  "errorReportingEnabled (snd (userInfo E g)) \<and>
   errorReportingEnabled (snd (runDiffTreeWithRenameDetection E c g)) \<and>
   (fst (tool E (invocations g) (workDir g) ''git --version'') \<longrightarrow>
      errorReportingEnabled (checkEnvironment E g)) \<and>
   (findRef n ty (refsShaMap g) = None \<and> askGit \<longrightarrow>
      errorReportingEnabled (snd (getRefSha E n ty askGit g))) \<and>
   (errorReportingEnabled g \<longrightarrow>
      errorReportingEnabled (checkEnvironment E g) \<and>
      errorReportingEnabled (snd (getRefSha E n ty askGit g)) \<and>
      (\<forall>b g'. stgCommit E sel msg pn f g = Ret b g' \<longrightarrow> errorReportingEnabled g')) \<and>
   map (\<lambda>i. (command i, reporting i)) (invocations (checkEnvironment E g)) =
     map (\<lambda>i. (command i, reporting i)) (invocations g) @
     (''git --version'', errorReportingEnabled g) #
     (if fst (tool E (invocations g) (workDir g) ''git --version'')
      then [(''source-highlight -V'', False)] else []) \<and>
   map (\<lambda>i. (command i, reporting i)) (invocations (snd (userInfo E g))) =
     map (\<lambda>i. (command i, reporting i)) (invocations g) @
     [(''git config user.name'', False), (''git config user.email'', False),
      (''git config --global user.name'', False), (''git config --global user.email'', False)] \<and>
   (\<forall>g1. errorReportingEnabled g1 \<and> \<not> fst (tool E (invocations g1) (workDir g1) c1) \<longrightarrow>
      surfaced (last (invocations (snd (run E c1 g1)))))"
proof (intro conjI impI allI)
  show "errorReportingEnabled (snd (userInfo E g))"
    by (simp add: userInfo_def Let_def)
  show "errorReportingEnabled (snd (runDiffTreeWithRenameDetection E c g))"
    by (simp add: runDiffTreeWithRenameDetection_def run_flag Let_def)
  show "errorReportingEnabled (checkEnvironment E g)"
    if "fst (tool E (invocations g) (workDir g) ''git --version'')"
    using that by (simp add: checkEnvironment_flag)
  show "errorReportingEnabled (snd (getRefSha E n ty askGit g))"
    if "findRef n ty (refsShaMap g) = None \<and> askGit"
    using that by (simp add: getRefSha_flag)
  show "errorReportingEnabled (checkEnvironment E g)" if "errorReportingEnabled g"
    using that by (simp add: checkEnvironment_flag)
  show "errorReportingEnabled (snd (getRefSha E n ty askGit g))" if "errorReportingEnabled g"
    using that by (simp add: getRefSha_flag)
  show "errorReportingEnabled g'"
    if "errorReportingEnabled g" "stgCommit E sel msg pn f g = Ret b g'" for b g'
    using that by (rule stgCommit_flag)
  show "map (\<lambda>i. (command i, reporting i)) (invocations (checkEnvironment E g)) =
     map (\<lambda>i. (command i, reporting i)) (invocations g) @
     (''git --version'', errorReportingEnabled g) #
     (if fst (tool E (invocations g) (workDir g) ''git --version'')
      then [(''source-highlight -V'', False)] else [])"
    by (rule checkEnvironment_launches)
  show "map (\<lambda>i. (command i, reporting i)) (invocations (snd (userInfo E g))) =
     map (\<lambda>i. (command i, reporting i)) (invocations g) @
     [(''git config user.name'', False), (''git config user.email'', False),
      (''git config --global user.name'', False), (''git config --global user.email'', False)]"
    by (rule userInfo_launches)
  show "surfaced (last (invocations (snd (run E c1 g1))))"
    if "errorReportingEnabled g1 \<and> \<not> fst (tool E (invocations g1) (workDir g1) c1)" for g1
    using that by (simp add: run_def surfaced_def Let_def)
qed

theorem errorReporting_restored_witness:
  "errorReportingEnabled workingGit \<and>
   fst (tool (exampleEnv workingTool) (invocations workingGit) (workDir workingGit) ''git --version'') \<and>
   findRef ''nonexistent'' ANY_REF (refsShaMap workingGit) = None \<and>
   errorReportingEnabled (checkEnvironment (exampleEnv workingTool) workingGit) \<and>
   errorReportingEnabled (snd (getRefSha (exampleEnv workingTool) ''nonexistent'' ANY_REF True workingGit)) \<and>
   (case stgCommit (exampleEnv workingTool) [] ''fix'' ''p1'' False workingGit of
      Ret b g' \<Rightarrow>
        b \<and> errorReportingEnabled g' \<and>
        map (\<lambda>i. (command i, reporting i)) (invocations g') =
          [(''git diff -C HEAD -- $$'', True), (''git stash'', False),
           (''stg status --reset'', True),
           (''stg import --mail --name $p1$ $/repo/.git/qgit_tmp_patch.txt$'', True),
           (''git stash pop'', False)]
    | Thrown i g' \<Rightarrow> False
    | Crash \<Rightarrow> False) \<and>
   surfaced (last (invocations (snd (run (exampleEnv failingTool) ''git status''
     (snd (getRefSha (exampleEnv failingTool) ''nonexistent'' ANY_REF True workingGit))))))"
proof -
  have run: "case stgCommit (exampleEnv workingTool) [] ''fix'' ''p1'' False workingGit of
      Ret b g' \<Rightarrow>
        b \<and> errorReportingEnabled g' \<and>
        map (\<lambda>i. (command i, reporting i)) (invocations g') =
          [(''git diff -C HEAD -- $$'', True), (''git stash'', False),
           (''stg status --reset'', True),
           (''stg import --mail --name $p1$ $/repo/.git/qgit_tmp_patch.txt$'', True),
           (''git stash pop'', False)]
    | Thrown i g' \<Rightarrow> False
    | Crash \<Rightarrow> False"
    by (simp add: stgCommit_def stgBody_def stgSteps_def stgImportOrFold_def failAndUnstash_def
        quietRun_def mkPatchFromWorkDir_def updateIndex_def indexCommands_def guardedRunFails_def
        getOtherFiles_def getFiles_def revLookup_def findFileIndex_def at_def run_def
        writeToFile_def dirRemove_def dirFilePath_def bindO_def quote_def quoteList_def
        workingGit_def exampleGit_def exampleEnv_def exampleRev_def exampleRevFile_def
        workingTool_def Let_def)
  have pre: "errorReportingEnabled workingGit \<and>
      fst (tool (exampleEnv workingTool) (invocations workingGit) (workDir workingGit) ''git --version'') \<and>
      findRef ''nonexistent'' ANY_REF (refsShaMap workingGit) = None"
    by (simp add: workingGit_def exampleGit_def exampleEnv_def workingTool_def Let_def)
  have after: "surfaced (last (invocations (snd (run (exampleEnv failingTool) ''git status''
     (snd (getRefSha (exampleEnv failingTool) ''nonexistent'' ANY_REF True workingGit))))))"
    by (simp add: surfaced_def run_def getRefSha_def workingGit_def exampleGit_def exampleEnv_def
        failingTool_def Let_def)
  show ?thesis
    using run pre after
      errorReporting_restored [where E = "exampleEnv workingTool" and g = workingGit
        and n = "''nonexistent''" and ty = ANY_REF and askGit = True]
    by simp
qed

section \<open>Temporary files of a commit\<close>

lemma startsWith_appendI: "startsWith s p \<Longrightarrow> startsWith (s @ r) p"
  by (induction s p rule: startsWith.induct) auto

lemma dirFilePath_absolute: "startsWith f ''/'' \<Longrightarrow> dirFilePath d f = f"
  by (simp add: dirFilePath_def)

lemma dirRemove_absolute:
  "startsWith f ''/'' \<Longrightarrow> fileSystem (dirRemove d f g) f = None"
  by (simp add: dirRemove_def dirFilePath_absolute)

text \<open>
  C9. With an absolute git directory: when \<^verbatim>\<open>commitFiles\<close> has written the message
  file and returns, with either result, the file is not there any more; when it could
  not write the file it returns false and has changed nothing. When \<^verbatim>\<open>stgCommit\<close>
  returns, with either result, the patch file is not there.
\<close>

theorem temp_files_removed:
  "startsWith (gitDir g) ''/'' \<longrightarrow>
     (\<forall>b g'. commitFiles E sel msg amend g = Ret b g' \<longrightarrow>
        (canWrite E (fileSystem g) (gitDir g @ ''/qgit_cmt_msg.txt'') \<longrightarrow>
           fileSystem g' (gitDir g @ ''/qgit_cmt_msg.txt'') = None) \<and>
        (\<not> canWrite E (fileSystem g) (gitDir g @ ''/qgit_cmt_msg.txt'') \<longrightarrow> \<not> b \<and> g' = g)) \<and>
     (\<forall>b g'. stgCommit E sel msg pn f g = Ret b g' \<longrightarrow>
        fileSystem g' (gitDir g @ ''/qgit_tmp_patch.txt'') = None)"
proof (intro impI conjI allI)
  assume abs: "startsWith (gitDir g) ''/''"
  {
    fix b g'
    assume r: "commitFiles E sel msg amend g = Ret b g'"
      and w: "canWrite E (fileSystem g) (gitDir g @ ''/qgit_cmt_msg.txt'')"
    from r w obtain g9 where "g' = dirRemove (workDir g9) (gitDir g @ ''/qgit_cmt_msg.txt'') g9"
      by (auto simp: commitFiles_def writeToFile_def Let_def bindO_Ret)
    then show "fileSystem g' (gitDir g @ ''/qgit_cmt_msg.txt'') = None"
      using dirRemove_absolute [OF startsWith_appendI [OF abs]] by simp
  }
  {
    fix b g'
    assume r: "commitFiles E sel msg amend g = Ret b g'"
      and w: "\<not> canWrite E (fileSystem g) (gitDir g @ ''/qgit_cmt_msg.txt'')"
    then show "\<not> b" and "g' = g"
      by (auto simp: commitFiles_def writeToFile_def Let_def)
  }
  {
    fix b g'
    assume r: "stgCommit E sel msg pn f g = Ret b g'"
    then obtain g9 where "g' = dirRemove (workDir g9) (gitDir g @ ''/qgit_tmp_patch.txt'') g9"
      by (auto simp: stgCommit_def Let_def bindO_Ret)
    then show "fileSystem g' (gitDir g @ ''/qgit_tmp_patch.txt'') = None"
      using dirRemove_absolute [OF startsWith_appendI [OF abs]] by simp
  }
qed

theorem temp_files_removed_witness:
  "startsWith (gitDir workingGit) ''/'' \<and>
   canWrite (exampleEnv workingTool) (fileSystem workingGit)
     (gitDir workingGit @ ''/qgit_cmt_msg.txt'') \<and>
   (case commitFiles (exampleEnv workingTool) [''README''] ''fix'' False workingGit of
      Ret b g' \<Rightarrow>
        b \<and> fileSystem g' ''/repo/.git/qgit_cmt_msg.txt'' = None \<and>
        map command (invocations g') =
          [''git add -- $README$'', ''git commit -F $/repo/.git/qgit_cmt_msg.txt$'']
    | Thrown i g' \<Rightarrow> False
    | Crash \<Rightarrow> False) \<and>
   (case commitFiles (exampleEnv failingTool) [''README''] ''fix'' False workingGit of
      Ret b g' \<Rightarrow>
        \<not> b \<and> fileSystem g' ''/repo/.git/qgit_cmt_msg.txt'' = None \<and>
        map command (invocations g') = [''git add -- $README$'']
    | Thrown i g' \<Rightarrow> False
    | Crash \<Rightarrow> False) \<and>
   (case stgCommit (exampleEnv workingTool) [''README''] ''fix'' ''p1'' True workingGit of
      Ret b g' \<Rightarrow> b \<and> fileSystem g' ''/repo/.git/qgit_tmp_patch.txt'' = None
    | Thrown i g' \<Rightarrow> False
    | Crash \<Rightarrow> False)"
proof -
  have pre: "startsWith (gitDir workingGit) ''/'' \<and>
      canWrite (exampleEnv workingTool) (fileSystem workingGit)
        (gitDir workingGit @ ''/qgit_cmt_msg.txt'')"
    by (simp add: workingGit_def exampleGit_def exampleEnv_def)
  have ok: "case commitFiles (exampleEnv workingTool) [''README''] ''fix'' False workingGit of
      Ret b g' \<Rightarrow>
        b \<and> map command (invocations g') =
          [''git add -- $README$'', ''git commit -F $/repo/.git/qgit_cmt_msg.txt$'']
    | Thrown i g' \<Rightarrow> False
    | Crash \<Rightarrow> False"
    by (simp add: commitFiles_def commitSteps_def updateIndex_def indexCommands_def
        guardedRunFails_def getOtherFiles_def getFiles_def revLookup_def findFileIndex_def at_def
        run_def writeToFile_def dirRemove_def dirFilePath_def bindO_def quote_def quoteList_def
        workingGit_def exampleGit_def exampleEnv_def exampleRev_def exampleRevFile_def
        workingTool_def Let_def)
  have failed: "case commitFiles (exampleEnv failingTool) [''README''] ''fix'' False workingGit of
      Ret b g' \<Rightarrow> \<not> b \<and> map command (invocations g') = [''git add -- $README$'']
    | Thrown i g' \<Rightarrow> False
    | Crash \<Rightarrow> False"
    by (simp add: commitFiles_def commitSteps_def updateIndex_def indexCommands_def
        guardedRunFails_def getOtherFiles_def getFiles_def revLookup_def findFileIndex_def at_def
        run_def writeToFile_def dirRemove_def dirFilePath_def bindO_def quote_def quoteList_def
        workingGit_def exampleGit_def exampleEnv_def exampleRev_def exampleRevFile_def
        failingTool_def Let_def)
  have stg: "case stgCommit (exampleEnv workingTool) [''README''] ''fix'' ''p1'' True workingGit of
      Ret b g' \<Rightarrow> b
    | Thrown i g' \<Rightarrow> False
    | Crash \<Rightarrow> False"
    by (simp add: stgCommit_def stgBody_def stgSteps_def stgImportOrFold_def failAndUnstash_def
        quietRun_def mkPatchFromWorkDir_def updateIndex_def indexCommands_def guardedRunFails_def
        getOtherFiles_def getFiles_def revLookup_def findFileIndex_def at_def run_def
        writeToFile_def dirRemove_def dirFilePath_def bindO_def quote_def quoteList_def
        workingGit_def exampleGit_def exampleEnv_def exampleRev_def exampleRevFile_def
        workingTool_def trimmed_def isSpace_def Let_def)
  have dir: "gitDir workingGit = ''/repo/.git''"
    by (simp add: workingGit_def exampleGit_def)
  have same: "canWrite (exampleEnv failingTool) = canWrite (exampleEnv workingTool)"
    by (simp add: exampleEnv_def)
  show ?thesis
    using pre ok failed stg
      temp_files_removed [where g = workingGit and E = "exampleEnv workingTool"
        and sel = "[''README'']" and msg = "''fix''" and amend = False and pn = "''p1''" and f = True]
      temp_files_removed [where g = workingGit and E = "exampleEnv failingTool"
        and sel = "[''README'']" and msg = "''fix''" and amend = False and pn = "''p1''" and f = True]
    by (auto simp: dir same split: outcome.splits)
qed

section \<open>One repository session at a time\<close>

lemma setRepository_busy:
  "setRepositoryBusy m \<Longrightarrow> setRepository X c m = Returned m"
  by (cases c) simp

lemma processPending_busy:
  "setRepositoryBusy m \<Longrightarrow> processPending X cs m = Returned m"
  by (induction cs) (simp_all add: setRepository_busy)

lemma setRepository_idle:
  assumes "\<not> setRepositoryBusy m"
  shows "setRepository X (SetRepository newDir refresh keepSelection baseDir arriving ending) m =
    (let m2 = m\<lparr>setRepositoryBusy := True, curDir := baseDir,
                 windowTitle := baseDir @ '' - QGit'', globalActionsEnabled := False,
                 sessionsPeak := max (sessionsPeak m) (Suc (sessionsInFlight m))\<rparr>
     in case ending of
          InitThrows i \<Rightarrow> catchBlock X i m2
        | InitReturns ok \<Rightarrow>
            Returned (m2\<lparr>setRepositoryBusy := False, globalActionsEnabled := ok,
                        statusBarMessage :=
                          (if ok then statusBarMessage m else ''Not a git archive'')\<rparr>))"
proof -
  let ?m2 = "(sessionEnters (m\<lparr>setRepositoryBusy := True\<rparr>))\<lparr>curDir := baseDir,
      windowTitle := baseDir @ '' - QGit'', globalActionsEnabled := False\<rparr>"
  let ?M2 = "m\<lparr>setRepositoryBusy := True, curDir := baseDir,
                 windowTitle := baseDir @ '' - QGit'', globalActionsEnabled := False,
                 sessionsPeak := max (sessionsPeak m) (Suc (sessionsInFlight m))\<rparr>"
  have "setRepositoryBusy ?m2"
    by (simp add: sessionEnters_def)
  then have pend: "processPending X arriving ?m2 = Returned ?m2"
    by (rule processPending_busy)
  have thrown: "sessionEnds ?m2 = ?M2"
    by (rule MainImpl.equality) (simp_all add: sessionEnters_def sessionEnds_def)
  have returned: "sessionEnds ((if ok then ?m2\<lparr>globalActionsEnabled := True\<rparr>
                         else ?m2\<lparr>statusBarMessage := ''Not a git archive''\<rparr>)
                        \<lparr>setRepositoryBusy := False\<rparr>) =
      ?M2\<lparr>setRepositoryBusy := False, globalActionsEnabled := ok,
                        statusBarMessage :=
                          (if ok then statusBarMessage m else ''Not a git archive'')\<rparr>" for ok
    by (rule MainImpl.equality) (simp_all add: sessionEnters_def sessionEnds_def)
  show ?thesis
  proof (cases ending)
    case (InitReturns ok)
    with assms pend returned [of ok] show ?thesis
      by (simp only: setRepository.simps Let_def mresult.case ending.case if_False)
  next
    case (InitThrows i)
    with assms pend thrown show ?thesis
      by (simp only: setRepository.simps Let_def mresult.case ending.case if_False)
  qed
qed

lemma catchBlock_state:
  "catchBlock X i m = Returned m' \<or> catchBlock X i m = Unwound j m' \<Longrightarrow> m' = m"
  by (auto simp: catchBlock_def split: if_splits option.splits)

lemma setRepository_sessions:
  assumes "sessionsInFlight m = 0" "sessionsPeak m \<le> 1"
    and "setRepository X c m = Returned m' \<or> setRepository X c m = Unwound j m'"
  shows "sessionsInFlight m' = 0 \<and> sessionsPeak m' \<le> 1"
proof (cases "setRepositoryBusy m")
  case True
  with assms show ?thesis
    by (simp add: setRepository_busy)
next
  case False
  obtain newDir refresh keepSelection baseDir arriving ending
    where c: "c = SetRepository newDir refresh keepSelection baseDir arriving ending"
    by (cases c)
  let ?m2 = "m\<lparr>setRepositoryBusy := True, curDir := baseDir,
               windowTitle := baseDir @ '' - QGit'', globalActionsEnabled := False,
               sessionsPeak := max (sessionsPeak m) (Suc (sessionsInFlight m))\<rparr>"
  have eq: "setRepository X c m =
      (case ending of
         InitThrows i \<Rightarrow> catchBlock X i ?m2
       | InitReturns ok \<Rightarrow>
           Returned (?m2\<lparr>setRepositoryBusy := False, globalActionsEnabled := ok,
                       statusBarMessage :=
                         (if ok then statusBarMessage m else ''Not a git archive'')\<rparr>))"
    unfolding c setRepository_idle [OF False] Let_def by (rule refl)
  show ?thesis
  proof (cases ending)
    case (InitReturns ok)
    from assms(3) have "m' = ?m2\<lparr>setRepositoryBusy := False, globalActionsEnabled := ok,
        statusBarMessage := (if ok then statusBarMessage m else ''Not a git archive'')\<rparr>"
      unfolding eq InitReturns by simp
    with assms(1,2) show ?thesis by simp
  next
    case (InitThrows i)
    from assms(3) have
      "catchBlock X i ?m2 = Returned m' \<or> catchBlock X i ?m2 = Unwound j m'"
      unfolding eq InitThrows by simp
    then have "m' = ?m2"
      by (rule catchBlock_state)
    with assms(1,2) show ?thesis by simp
  qed
qed

lemma processPending_sessions:
  assumes "sessionsInFlight m = 0" "sessionsPeak m \<le> 1"
    and "processPending X cs m = Returned m' \<or> processPending X cs m = Unwound j m'"
  shows "sessionsInFlight m' = 0 \<and> sessionsPeak m' \<le> 1"
  using assms
proof (induction cs arbitrary: m)
  case Nil
  then show ?case by simp
next
  case (Cons c cs)
  show ?case
  proof (cases "setRepository X c m")
    case (Returned m1)
    with Cons.prems have inv: "sessionsInFlight m1 = 0 \<and> sessionsPeak m1 \<le> 1"
      using setRepository_sessions [of m X c m1] by simp
    from Cons.prems(3) Returned have
      "processPending X cs m1 = Returned m' \<or> processPending X cs m1 = Unwound j m'"
      by simp
    with Cons.IH [of m1] inv show ?thesis by simp
  next
    case (Unwound i m1)
    with Cons.prems have "sessionsInFlight m1 = 0 \<and> sessionsPeak m1 \<le> 1"
      using setRepository_sessions [of m X c m1 i] by simp
    with Cons.prems(3) Unwound show ?thesis by simp
  qed
qed

text \<open>
  C8, as stated, fails in its last part: the flag is not cleared whenever a session
  ends. When the window is closed while \<^verbatim>\<open>init\<close> runs, the exception \<^verbatim>\<open>exExiting\<close>
  leaves \<^verbatim>\<open>init\<close>; the catch block returns from \<^verbatim>\<open>setRepository\<close> with the flag
  still set. The call has returned and no session is in flight, yet a later call, on
  the state it left, finds the flag set and is ignored.
\<close>

theorem setRepository_flag_kept_counterexample:
  "(case setRepository exampleManager closingCall idleWindow of
      Returned m' \<Rightarrow>
        setRepositoryBusy m' \<and> sessionsInFlight m' = 0 \<and> curDir m' = ''/repo'' \<and>
        setRepository exampleManager refreshStorm m' = Returned m'
    | Unwound i m' \<Rightarrow> False)"
  by (simp add: idleWindow_def closingCall_def refreshStorm_def exampleManager_def
      sessionEnters_def sessionEnds_def catchBlock_def Let_def)

text \<open>
  C8, amended. A call of \<^verbatim>\<open>setRepository\<close> that finds the guard flag set returns at
  once and leaves the whole state as it was, status line included. A call that finds
  it clear runs with the flag set, so the calls that arrive during its \<^verbatim>\<open>init\<close> have
  no effect. When \<^verbatim>\<open>init\<close> returns, with either result, the call ends with the flag
  clear. When an exception leaves \<^verbatim>\<open>init\<close>, the call ends with the flag still set:
  for \<^verbatim>\<open>exExiting\<close> it returns, or throws the pending exception, and any other
  exception is thrown on; in each case the state is the one at the call of \<^verbatim>\<open>init\<close>,
  and a later call on it is ignored. From a state with no session in flight, no
  sequence of calls, nested as they may be, ever has two sessions in flight.
\<close>

theorem setRepository_one_session:
  "(setRepositoryBusy m \<longrightarrow> setRepository X c m = Returned m) \<and>
   (\<not> setRepositoryBusy m \<longrightarrow>
      setRepository X (SetRepository newDir refresh keepSelection baseDir arriving (InitReturns ok)) m =
        Returned (m\<lparr>setRepositoryBusy := False, curDir := baseDir,
                    windowTitle := baseDir @ '' - QGit'', globalActionsEnabled := ok,
                    statusBarMessage := (if ok then statusBarMessage m else ''Not a git archive''),
                    sessionsPeak := max (sessionsPeak m) (Suc (sessionsInFlight m))\<rparr>)) \<and>
   (\<not> setRepositoryBusy m \<longrightarrow>
      (let m2 = m\<lparr>setRepositoryBusy := True, curDir := baseDir,
                   windowTitle := baseDir @ '' - QGit'', globalActionsEnabled := False,
                   sessionsPeak := max (sessionsPeak m) (Suc (sessionsInFlight m))\<rparr>
       in setRepository X (SetRepository newDir refresh keepSelection baseDir arriving (InitThrows e)) m =
            (if matchesExiting X e
             then (case throwPending X of Some p \<Rightarrow> Unwound p m2 | None \<Rightarrow> Returned m2)
             else Unwound e m2) \<and>
          setRepositoryBusy m2 \<and> setRepository X c m2 = Returned m2)) \<and>
   (sessionsInFlight m = 0 \<and> sessionsPeak m \<le> 1 \<longrightarrow>
      (case processPending X cs m of
         Returned m' \<Rightarrow> sessionsInFlight m' = 0 \<and> sessionsPeak m' \<le> 1
       | Unwound i m' \<Rightarrow> sessionsInFlight m' = 0 \<and> sessionsPeak m' \<le> 1))"
proof (intro conjI impI)
  show "setRepository X c m = Returned m" if "setRepositoryBusy m"
    using that by (rule setRepository_busy)
  show "setRepository X (SetRepository newDir refresh keepSelection baseDir arriving (InitReturns ok)) m =
        Returned (m\<lparr>setRepositoryBusy := False, curDir := baseDir,
                    windowTitle := baseDir @ '' - QGit'', globalActionsEnabled := ok,
                    statusBarMessage := (if ok then statusBarMessage m else ''Not a git archive''),
                    sessionsPeak := max (sessionsPeak m) (Suc (sessionsInFlight m))\<rparr>)"
    if "\<not> setRepositoryBusy m"
  proof -
    have "m\<lparr>setRepositoryBusy := True, curDir := baseDir,
            windowTitle := baseDir @ '' - QGit'', globalActionsEnabled := False,
            sessionsPeak := max (sessionsPeak m) (Suc (sessionsInFlight m))\<rparr>
           \<lparr>setRepositoryBusy := False, globalActionsEnabled := ok,
            statusBarMessage := (if ok then statusBarMessage m else ''Not a git archive'')\<rparr> =
          m\<lparr>setRepositoryBusy := False, curDir := baseDir,
            windowTitle := baseDir @ '' - QGit'', globalActionsEnabled := ok,
            statusBarMessage := (if ok then statusBarMessage m else ''Not a git archive''),
            sessionsPeak := max (sessionsPeak m) (Suc (sessionsInFlight m))\<rparr>"
      by (rule MainImpl.equality) simp_all
    then show ?thesis
      by (simp only: setRepository_idle [OF that] Let_def ending.case)
  qed
  show "let m2 = m\<lparr>setRepositoryBusy := True, curDir := baseDir,
                   windowTitle := baseDir @ '' - QGit'', globalActionsEnabled := False,
                   sessionsPeak := max (sessionsPeak m) (Suc (sessionsInFlight m))\<rparr>
       in setRepository X (SetRepository newDir refresh keepSelection baseDir arriving (InitThrows e)) m =
            (if matchesExiting X e
             then (case throwPending X of Some p \<Rightarrow> Unwound p m2 | None \<Rightarrow> Returned m2)
             else Unwound e m2) \<and>
          setRepositoryBusy m2 \<and> setRepository X c m2 = Returned m2"
    if "\<not> setRepositoryBusy m"
  proof -
    let ?m2 = "m\<lparr>setRepositoryBusy := True, curDir := baseDir,
                   windowTitle := baseDir @ '' - QGit'', globalActionsEnabled := False,
                   sessionsPeak := max (sessionsPeak m) (Suc (sessionsInFlight m))\<rparr>"
    have thrown: "setRepository X (SetRepository newDir refresh keepSelection baseDir arriving (InitThrows e)) m =
        (if matchesExiting X e
         then (case throwPending X of Some p \<Rightarrow> Unwound p ?m2 | None \<Rightarrow> Returned ?m2)
         else Unwound e ?m2)"
      by (simp only: setRepository_idle [OF that] Let_def ending.case catchBlock_def)
    have busy: "setRepositoryBusy ?m2"
      by simp
    from thrown busy setRepository_busy [OF busy, of X c] show ?thesis
      by (simp only: Let_def simp_thms)
  qed
  show "case processPending X cs m of
         Returned m' \<Rightarrow> sessionsInFlight m' = 0 \<and> sessionsPeak m' \<le> 1
       | Unwound i m' \<Rightarrow> sessionsInFlight m' = 0 \<and> sessionsPeak m' \<le> 1"
    if "sessionsInFlight m = 0 \<and> sessionsPeak m \<le> 1"
    using that processPending_sessions [of m X cs]
    by (cases "processPending X cs m") auto
qed

theorem setRepository_one_session_witness:
  "\<not> setRepositoryBusy idleWindow \<and> sessionsInFlight idleWindow = 0 \<and> sessionsPeak idleWindow \<le> 1 \<and>
   (case setRepository exampleManager refreshStorm idleWindow of
      Returned m' \<Rightarrow>
        \<not> setRepositoryBusy m' \<and> curDir m' = ''/repo'' \<and> globalActionsEnabled m' \<and>
        statusBarMessage m' = [] \<and> sessionsInFlight m' = 0 \<and> sessionsPeak m' = 1
    | Unwound i m' \<Rightarrow> False) \<and>
   (case setRepository exampleManager closingCall idleWindow of
      Returned m' \<Rightarrow>
        setRepositoryBusy m' \<and> curDir m' = ''/repo'' \<and> \<not> globalActionsEnabled m' \<and>
        sessionsInFlight m' = 0 \<and> sessionsPeak m' = 1
    | Unwound i m' \<Rightarrow> False) \<and>
   setRepositoryBusy (idleWindow\<lparr>setRepositoryBusy := True\<rparr>) \<and>
   setRepository exampleManager refreshStorm (idleWindow\<lparr>setRepositoryBusy := True\<rparr>) =
     Returned (idleWindow\<lparr>setRepositoryBusy := True\<rparr>) \<and>
   (case processPending exampleManager [refreshStorm, refreshStorm] idleWindow of
      Returned m' \<Rightarrow> \<not> setRepositoryBusy m' \<and> sessionsInFlight m' = 0 \<and> sessionsPeak m' = 1
    | Unwound i m' \<Rightarrow> False) \<and>
   (case processPending exampleManager [closingCall, refreshStorm] idleWindow of
      Returned m' \<Rightarrow> setRepositoryBusy m' \<and> sessionsInFlight m' = 0 \<and> sessionsPeak m' = 1
    | Unwound i m' \<Rightarrow> False)"
  using setRepository_one_session [where m = idleWindow and X = exampleManager
      and c = refreshStorm and cs = "[refreshStorm, refreshStorm]"]
    setRepository_one_session [where m = idleWindow and X = exampleManager
      and c = refreshStorm and cs = "[closingCall, refreshStorm]"]
    setRepository_one_session [where m = "idleWindow\<lparr>setRepositoryBusy := True\<rparr>"
      and X = exampleManager and c = refreshStorm]
  by (simp add: idleWindow_def refreshStorm_def closingCall_def exampleManager_def
      sessionEnters_def sessionEnds_def catchBlock_def Let_def)

section \<open>Commands launched again after a failure\<close>











































































































end
